theory Spec2Isabelle
  imports Complex_Main
begin

section \<open>Machine integers\<close>

text \<open>
  The kernels compute with the C type \<open>int\<close> (32 bits, two's complement).  Values are
  kept as HOL integers and every arithmetic operation wraps its result into the signed
  32-bit range, as the hardware running the kernels does.  \<open>float\<close> values are idealised
  as real numbers: rounding, infinities and NaN are outside this development.  The helpers
  \<open>max\<close> and \<open>min\<close> are the maximum and minimum of two numbers.
\<close>

definition int32 :: "int \<Rightarrow> int" where
  "int32 v = (v + 2147483648) mod 4294967296 - 2147483648"

definition is_int32 :: "int \<Rightarrow> bool" where
  "is_int32 v \<longleftrightarrow> - 2147483648 \<le> v \<and> v < 2147483648"

definition add32 :: "int \<Rightarrow> int \<Rightarrow> int" where
  "add32 a b = int32 (a + b)"

definition sub32 :: "int \<Rightarrow> int \<Rightarrow> int" where
  "sub32 a b = int32 (a - b)"

definition mul32 :: "int \<Rightarrow> int \<Rightarrow> int" where
  "mul32 a b = int32 (a * b)"

definition neg32 :: "int \<Rightarrow> int" where
  "neg32 a = int32 (- a)"

section \<open>Rectangles and buffer addressing\<close>

record int4 =
  int4_x :: int
  int4_y :: int
  int4_z :: int
  int4_w :: int

text \<open>
  Modelled from the spec: \<open>align_up\<close> is not part of the sources.  The spec describes
  \<open>align_up(rect.width, 4)\<close> as the 4-aligned width of a destination buffer row, that is
  the width rounded up to the next multiple of the alignment.
\<close>

definition align_up :: "int \<Rightarrow> int \<Rightarrow> int" where
  "align_up offset alignment = int32 ((offset + alignment - 1) div alignment * alignment)"

text \<open>
  The first two lines of \<open>kernel_filter_combine_halves\<close> and the lines computing
  \<open>buffer_w\<close> and \<open>idx\<close> (\<open>w\<close> and \<open>p_idx\<close>) in the other kernels.
\<close>

definition filter_buffer_w :: "int4 \<Rightarrow> int" where
  "filter_buffer_w rect = align_up (sub32 (int4_z rect) (int4_x rect)) 4"

definition filter_idx :: "int4 \<Rightarrow> int \<Rightarrow> int \<Rightarrow> int" where
  "filter_idx rect x y =
     add32 (mul32 (sub32 y (int4_y rect)) (filter_buffer_w rect)) (sub32 x (int4_x rect))"

section \<open>Combining the two half images\<close>

text \<open>
  A \<open>float *\<close> argument of the NLM kernels is a buffer indexed by integers.  The output
  pointers \<open>mean\<close> and \<open>variance\<close> of \<open>kernel_filter_combine_halves\<close> may be null, which
  is \<open>None\<close>; the four buffers are distinct storage.
\<close>

definition kernel_filter_combine_halves ::
  "int \<Rightarrow> int \<Rightarrow> (int \<Rightarrow> real) option \<Rightarrow> (int \<Rightarrow> real) option \<Rightarrow> (int \<Rightarrow> real) \<Rightarrow> (int \<Rightarrow> real)
     \<Rightarrow> int4 \<Rightarrow> (int \<Rightarrow> real) option \<times> (int \<Rightarrow> real) option" where
  "kernel_filter_combine_halves x y mean variance a b rect =
     (let idx = filter_idx rect x y;
          mean' = (case mean of None \<Rightarrow> None
                   | Some m \<Rightarrow> Some (m(idx := 0.5 * (a idx + b idx))));
          variance' = (case variance of None \<Rightarrow> None
                   | Some v \<Rightarrow> Some (v(idx := 0.5 * (a idx - b idx) * (a idx - b idx))))
      in (mean', variance'))"

section \<open>Memory of the tile kernels\<close>

text \<open>
  \<open>kernel_filter_divide_shadow\<close> and \<open>kernel_filter_get_feature\<close> read the render
  buffers of the 3x3 tiles and write the denoising buffers through pointers.  A pointer is
  a memory block and an offset into it; the heap maps every block and offset to a float
  and records each store (location and value) in program order.
\<close>

type_synonym float_ptr = "nat \<times> int"

record heap =
  mem :: "nat \<Rightarrow> int \<Rightarrow> real"
  written :: "(float_ptr \<times> real) list"

definition ptr_add :: "float_ptr \<Rightarrow> int \<Rightarrow> float_ptr" where
  "ptr_add p k = (fst p, snd p + k)"

definition load :: "heap \<Rightarrow> float_ptr \<Rightarrow> int \<Rightarrow> real" where
  "load h p i = mem h (fst p) (snd p + i)"

definition store :: "heap \<Rightarrow> float_ptr \<Rightarrow> int \<Rightarrow> real \<Rightarrow> heap" where
  "store h p i v =
     h\<lparr>mem := (mem h)(fst p := (mem h (fst p))(snd p + i := v)),
       written := written h @ [(ptr_add p i, v)]\<rparr>"

text \<open>
  The two fields of \<open>kernel_data.film\<close> that the kernels read; their declaration is not part
  of the sources, so they are parameters.
\<close>

record kernel_film =
  pass_stride :: int
  pass_denoising :: int

text \<open>
  The first four lines shared by \<open>kernel_filter_divide_shadow\<close> and
  \<open>kernel_filter_get_feature\<close>: the tile of the pixel and the pointer to its pass record.
  The arrays \<open>tile_x\<close>, \<open>tile_y\<close>, \<open>offset\<close> and \<open>stride\<close> are only read.  In
  \<open>buffers[tile] + (...) * pass_stride + pass_denoising\<close> the product is an \<open>int\<close>; it
  and \<open>pass_denoising\<close> are added to the pointer one after the other.
\<close>

definition filter_tile :: "(int \<Rightarrow> int) \<Rightarrow> (int \<Rightarrow> int) \<Rightarrow> int \<Rightarrow> int \<Rightarrow> int" where
  "filter_tile tile_x tile_y x y =
     (let xtile = (if x < tile_x 1 then 0 else if x < tile_x 2 then 1 else 2);
          ytile = (if y < tile_y 1 then 0 else if y < tile_y 2 then 1 else 2)
      in add32 (mul32 ytile 3) xtile)"

definition filter_center_buffer ::
  "kernel_film \<Rightarrow> (int \<Rightarrow> float_ptr) \<Rightarrow> (int \<Rightarrow> int) \<Rightarrow> (int \<Rightarrow> int) \<Rightarrow> (int \<Rightarrow> int) \<Rightarrow> (int \<Rightarrow> int)
     \<Rightarrow> int \<Rightarrow> int \<Rightarrow> float_ptr" where
  "filter_center_buffer kg buffers tile_x tile_y offset stride x y =
     (let tile = filter_tile tile_x tile_y x y
      in ptr_add
           (ptr_add (buffers tile)
              (mul32 (add32 (add32 (offset tile) (mul32 y (stride tile))) x) (pass_stride kg)))
           (pass_denoising kg))"

section \<open>Shadow division\<close>

definition shadow_Bofs :: "int4 \<Rightarrow> int" where
  "shadow_Bofs rect = mul32 (sub32 (int4_w rect) (int4_y rect)) (filter_buffer_w rect)"

definition kernel_filter_divide_shadow ::
  "kernel_film \<Rightarrow> int \<Rightarrow> (int \<Rightarrow> float_ptr) \<Rightarrow> int \<Rightarrow> int \<Rightarrow> (int \<Rightarrow> int) \<Rightarrow> (int \<Rightarrow> int)
     \<Rightarrow> (int \<Rightarrow> int) \<Rightarrow> (int \<Rightarrow> int) \<Rightarrow> float_ptr \<Rightarrow> float_ptr \<Rightarrow> float_ptr \<Rightarrow> float_ptr
     \<Rightarrow> int4 \<Rightarrow> heap \<Rightarrow> heap" where
  "kernel_filter_divide_shadow kg sample buffers x y tile_x tile_y offset stride
       unfiltered sampleVariance sampleVarianceV bufferVariance rect h0 =
     (let center_buffer = filter_center_buffer kg buffers tile_x tile_y offset stride x y;
          idx = filter_idx rect x y;
          Bofs = shadow_Bofs rect;
          h1 = store h0 unfiltered idx
                 (load h0 center_buffer 15 / max (load h0 center_buffer 14) (1 / 10000000));
          h2 = store h1 unfiltered (add32 idx Bofs)
                 (load h1 center_buffer 18 / max (load h1 center_buffer 17) (1 / 10000000));
          varFac = 1 / real_of_int (mul32 sample (sub32 sample 1));
          h3 = store h2 sampleVariance idx
                 ((load h2 center_buffer 16 + load h2 center_buffer 19) * varFac);
          h4 = store h3 sampleVarianceV idx
                 (0.5 * (load h3 center_buffer 16 - load h3 center_buffer 19)
                      * (load h3 center_buffer 16 - load h3 center_buffer 19) * varFac);
          h5 = store h4 bufferVariance idx
                 (0.5 * (load h4 unfiltered idx - load h4 unfiltered (add32 idx Bofs))
                      * (load h4 unfiltered idx - load h4 unfiltered (add32 idx Bofs)))
      in h5)"

section \<open>Feature extraction\<close>

definition kernel_filter_get_feature ::
  "kernel_film \<Rightarrow> int \<Rightarrow> (int \<Rightarrow> float_ptr) \<Rightarrow> int \<Rightarrow> int \<Rightarrow> int \<Rightarrow> int \<Rightarrow> (int \<Rightarrow> int)
     \<Rightarrow> (int \<Rightarrow> int) \<Rightarrow> (int \<Rightarrow> int) \<Rightarrow> (int \<Rightarrow> int) \<Rightarrow> float_ptr \<Rightarrow> float_ptr
     \<Rightarrow> int4 \<Rightarrow> heap \<Rightarrow> heap" where
  "kernel_filter_get_feature kg sample buffers m_offset v_offset x y tile_x tile_y offset stride
       mean variance rect h0 =
     (let center_buffer = filter_center_buffer kg buffers tile_x tile_y offset stride x y;
          idx = filter_idx rect x y;
          h1 = store h0 mean idx (load h0 center_buffer m_offset / real_of_int sample);
          h2 = store h1 variance idx
                 (load h1 center_buffer v_offset / real_of_int (mul32 sample (sub32 sample 1)))
      in h2)"

section \<open>Non-local means\<close>

text \<open>
  Modelled from the spec: \<open>fast_expf\<close> is not part of the sources.  The spec gives the
  weight as \<open>wI = exp(-max(0, dI))\<close>, so \<open>fast_expf\<close> is the exponential function.
\<close>

definition fast_expf :: "real \<Rightarrow> real" where
  "fast_expf v = exp v"

text \<open>
  A \<open>float\<close> division by zero yields an infinity or a NaN, which the real numbers do not
  have.  Every division of the filter therefore checks its divisor: on a zero divisor the
  result is \<open>None\<close>, and it stays \<open>None\<close> through the rest of the computation.  A
  result \<open>None\<close> says that the run leaves the real numbers; the model then assigns no
  value to what the code computes from the infinity or the NaN.
\<close>

text \<open>
  A counted \<open>for\<close> loop whose body changes neither its counter nor its bounds runs its body
  once for every counter value from the lower bound up to the upper bound minus one, so each
  loop is a recursion over that list of counter values; the remaining loop variables are the
  state.  The innermost loop over \<open>dx\<close> carries \<open>dIdx\<close> and \<open>dI\<close>.
\<close>

fun nlm_patch_row ::
  "(int \<Rightarrow> real) \<Rightarrow> (int \<Rightarrow> real) \<Rightarrow> real \<Rightarrow> real \<Rightarrow> int \<Rightarrow> int \<Rightarrow> int list
     \<Rightarrow> int \<times> real \<Rightarrow> (int \<times> real) option" where
  "nlm_patch_row weightImage variance a k_2 p_idx q_idx [] (dIdx, dI) = Some (dIdx, dI)"
| "nlm_patch_row weightImage variance a k_2 p_idx q_idx (dx # dxs) (dIdx, dI) =
     (let diff = weightImage (add32 p_idx dIdx) - weightImage (add32 q_idx dIdx);
          divisor = 1 / 10000000
                    + k_2 * (variance (add32 p_idx dIdx) + variance (add32 q_idx dIdx))
      in if divisor = 0 then None
         else nlm_patch_row weightImage variance a k_2 p_idx q_idx dxs
                (add32 dIdx 1,
                 dI + (diff * diff
                        - a * (variance (add32 p_idx dIdx)
                               + min (variance (add32 p_idx dIdx)) (variance (add32 q_idx dIdx))))
                      * (1 / divisor)))"

text \<open>The loop over \<open>dy\<close>; \<open>low_x\<close> and \<open>high_x\<close> are \<open>low_dPatch.x\<close> and \<open>high_dPatch.x\<close>.\<close>

fun nlm_patch_rows ::
  "(int \<Rightarrow> real) \<Rightarrow> (int \<Rightarrow> real) \<Rightarrow> real \<Rightarrow> real \<Rightarrow> int \<Rightarrow> int \<Rightarrow> int \<Rightarrow> int \<Rightarrow> int
     \<Rightarrow> int list \<Rightarrow> int \<times> real \<Rightarrow> (int \<times> real) option" where
  "nlm_patch_rows weightImage variance a k_2 p_idx q_idx w low_x high_x [] (dIdx, dI) =
     Some (dIdx, dI)"
| "nlm_patch_rows weightImage variance a k_2 p_idx q_idx w low_x high_x (dy # dys) (dIdx, dI) =
     (case nlm_patch_row weightImage variance a k_2 p_idx q_idx [low_x..high_x - 1] (dIdx, dI) of
        None \<Rightarrow> None
      | Some (dIdx', dI') \<Rightarrow>
          nlm_patch_rows weightImage variance a k_2 p_idx q_idx w low_x high_x dys
            (add32 dIdx' (sub32 w (sub32 high_x low_x)), dI'))"

text \<open>
  The corners \<open>low_dPatch\<close> and \<open>high_dPatch\<close> of the patch window that is compared at
  \<open>p = (x, y)\<close> and \<open>q = (qx, qy)\<close>.
\<close>

definition nlm_low_dPatch :: "int4 \<Rightarrow> int \<Rightarrow> int \<Rightarrow> int \<Rightarrow> int \<Rightarrow> int \<Rightarrow> int \<times> int" where
  "nlm_low_dPatch rect f x y qx qy =
     (max (max (sub32 (int4_x rect) qx) (sub32 (int4_x rect) x)) (neg32 f),
      max (max (sub32 (int4_y rect) qy) (sub32 (int4_y rect) y)) (neg32 f))"

definition nlm_high_dPatch :: "int4 \<Rightarrow> int \<Rightarrow> int \<Rightarrow> int \<Rightarrow> int \<Rightarrow> int \<Rightarrow> int \<times> int" where
  "nlm_high_dPatch rect f x y qx qy =
     (min (min (sub32 (int4_z rect) qx) (sub32 (int4_z rect) x)) (add32 f 1),
      min (min (sub32 (int4_w rect) qy) (sub32 (int4_w rect) y)) (add32 f 1))"

text \<open>
  The divisor of \<open>dI *= 1.0f / (...)\<close>: the patch area, an \<open>int\<close> product.  It is zero for
  some patch sizes, and the division then divides by zero.
\<close>

definition nlm_patch_area :: "int4 \<Rightarrow> int \<Rightarrow> int \<Rightarrow> int \<Rightarrow> int \<Rightarrow> int \<Rightarrow> int" where
  "nlm_patch_area rect f x y qx qy =
     (let low_dPatch = nlm_low_dPatch rect f x y qx qy;
          high_dPatch = nlm_high_dPatch rect f x y qx qy
      in mul32 (sub32 (fst high_dPatch) (fst low_dPatch))
               (sub32 (snd high_dPatch) (snd low_dPatch)))"

text \<open>The body of the loop over \<open>qx\<close> up to the weight \<open>wI\<close> of the candidate \<open>q\<close>.\<close>

definition nlm_wI ::
  "(int \<Rightarrow> real) \<Rightarrow> (int \<Rightarrow> real) \<Rightarrow> int4 \<Rightarrow> int \<Rightarrow> real \<Rightarrow> real \<Rightarrow> int \<Rightarrow> int \<Rightarrow> int \<Rightarrow> int
     \<Rightarrow> int \<Rightarrow> int \<Rightarrow> int \<Rightarrow> real option" where
  "nlm_wI weightImage variance rect f a k_2 w x y p_idx qx qy q_idx =
     (let low_dPatch = nlm_low_dPatch rect f x y qx qy;
          high_dPatch = nlm_high_dPatch rect f x y qx qy;
          dIdx = add32 (fst low_dPatch) (mul32 (snd low_dPatch) w)
      in case nlm_patch_rows weightImage variance a k_2 p_idx q_idx w
                (fst low_dPatch) (fst high_dPatch) [snd low_dPatch..snd high_dPatch - 1]
                (dIdx, 0) of
           None \<Rightarrow> None
         | Some (dIdx', dI) \<Rightarrow>
             if nlm_patch_area rect f x y qx qy = 0 then None
             else Some (fast_expf
                    (- max 0 (dI * (1 / real_of_int (nlm_patch_area rect f x y qx qy))))))"

text \<open>The loop over \<open>qx\<close>, with state \<open>q_idx\<close>, \<open>sum_image\<close> and \<open>sum_weight\<close>.\<close>

fun nlm_row ::
  "(int \<Rightarrow> real) \<Rightarrow> (int \<Rightarrow> real) \<Rightarrow> (int \<Rightarrow> real) \<Rightarrow> int4 \<Rightarrow> int \<Rightarrow> real \<Rightarrow> real \<Rightarrow> int \<Rightarrow> int
     \<Rightarrow> int \<Rightarrow> int \<Rightarrow> int \<Rightarrow> int list \<Rightarrow> int \<times> real \<times> real \<Rightarrow> (int \<times> real \<times> real) option" where
  "nlm_row noisyImage weightImage variance rect f a k_2 w x y p_idx qy []
       (q_idx, sum_image, sum_weight) = Some (q_idx, sum_image, sum_weight)"
| "nlm_row noisyImage weightImage variance rect f a k_2 w x y p_idx qy (qx # qxs)
       (q_idx, sum_image, sum_weight) =
     (case nlm_wI weightImage variance rect f a k_2 w x y p_idx qx qy q_idx of
        None \<Rightarrow> None
      | Some wI \<Rightarrow>
          nlm_row noisyImage weightImage variance rect f a k_2 w x y p_idx qy qxs
            (add32 q_idx 1, sum_image + wI * noisyImage q_idx, sum_weight + wI))"

text \<open>The loop over \<open>qy\<close>; \<open>low_x\<close> and \<open>high_x\<close> are \<open>low.x\<close> and \<open>high.x\<close>.\<close>

fun nlm_rows ::
  "(int \<Rightarrow> real) \<Rightarrow> (int \<Rightarrow> real) \<Rightarrow> (int \<Rightarrow> real) \<Rightarrow> int4 \<Rightarrow> int \<Rightarrow> real \<Rightarrow> real \<Rightarrow> int \<Rightarrow> int
     \<Rightarrow> int \<Rightarrow> int \<Rightarrow> int \<Rightarrow> int \<Rightarrow> int list \<Rightarrow> int \<times> real \<times> real \<Rightarrow> (int \<times> real \<times> real) option" where
  "nlm_rows noisyImage weightImage variance rect f a k_2 w x y p_idx low_x high_x [] st = Some st"
| "nlm_rows noisyImage weightImage variance rect f a k_2 w x y p_idx low_x high_x (qy # qys) st =
     (case nlm_row noisyImage weightImage variance rect f a k_2 w x y p_idx qy
             [low_x..high_x - 1] st of
        None \<Rightarrow> None
      | Some (q_idx, sum_image, sum_weight) \<Rightarrow>
          nlm_rows noisyImage weightImage variance rect f a k_2 w x y p_idx low_x high_x qys
            (add32 q_idx (sub32 w (sub32 high_x low_x)), sum_image, sum_weight))"

text \<open>The corners \<open>low\<close> and \<open>high\<close> of the search window (\<open>make_int2\<close> builds a pair).\<close>

definition nlm_low :: "int4 \<Rightarrow> int \<Rightarrow> int \<Rightarrow> int \<Rightarrow> int \<times> int" where
  "nlm_low rect x y r = (max (int4_x rect) (sub32 x r), max (int4_y rect) (sub32 y r))"

definition nlm_high :: "int4 \<Rightarrow> int \<Rightarrow> int \<Rightarrow> int \<Rightarrow> int \<times> int" where
  "nlm_high rect x y r =
     (min (int4_z rect) (add32 (add32 x r) 1), min (int4_w rect) (add32 (add32 y r) 1))"

text \<open>
  The kernel up to the end of the loops: the accumulated \<open>sum_image\<close> and \<open>sum_weight\<close>.
\<close>

definition nlm_sums ::
  "int \<Rightarrow> int \<Rightarrow> (int \<Rightarrow> real) \<Rightarrow> (int \<Rightarrow> real) \<Rightarrow> (int \<Rightarrow> real) \<Rightarrow> int4 \<Rightarrow> int \<Rightarrow> int \<Rightarrow> real \<Rightarrow> real
     \<Rightarrow> (real \<times> real) option" where
  "nlm_sums x y noisyImage weightImage variance rect r f a k_2 =
     (let low = nlm_low rect x y r;
          high = nlm_high rect x y r;
          w = filter_buffer_w rect;
          p_idx = filter_idx rect x y;
          q_idx = add32 (mul32 (sub32 (snd low) (int4_y rect)) w) (sub32 (fst low) (int4_x rect))
      in case nlm_rows noisyImage weightImage variance rect f a k_2 w x y p_idx (fst low)
                (fst high) [snd low..snd high - 1] (q_idx, 0, 0) of
           None \<Rightarrow> None
         | Some (q_idx', sum_image, sum_weight) \<Rightarrow> Some (sum_image, sum_weight))"

text \<open>
  The kernel: the only write is the final one to \<open>filteredImage[p_idx]\<close>.  The result is
  the buffer after the call, or \<open>None\<close> when the value written is not a real number
  because a division, the final one included, had a zero divisor.
\<close>

definition kernel_filter_non_local_means ::
  "int \<Rightarrow> int \<Rightarrow> (int \<Rightarrow> real) \<Rightarrow> (int \<Rightarrow> real) \<Rightarrow> (int \<Rightarrow> real) \<Rightarrow> (int \<Rightarrow> real) \<Rightarrow> int4 \<Rightarrow> int
     \<Rightarrow> int \<Rightarrow> real \<Rightarrow> real \<Rightarrow> (int \<Rightarrow> real) option" where
  "kernel_filter_non_local_means x y noisyImage weightImage variance filteredImage rect r f a k_2 =
     (case nlm_sums x y noisyImage weightImage variance rect r f a k_2 of
        None \<Rightarrow> None
      | Some (sum_image, sum_weight) \<Rightarrow>
          if sum_weight = 0 then None
          else Some (filteredImage(filter_idx rect x y := sum_image / sum_weight)))"

section \<open>Preconditions of the kernels\<close>

text \<open>
  The callers of the kernels guarantee a valid rect (half-open, \<open>x\<close> and \<open>y\<close> inclusive,
  \<open>z\<close> and \<open>w\<close> exclusive) whose denoising buffers can be indexed with an \<open>int\<close>: the
  largest buffer, \<open>unfiltered\<close>, holds two half images of \<open>rect\<close> height times the aligned
  width each.
\<close>

definition rect_valid :: "int4 \<Rightarrow> bool" where
  "rect_valid rect \<longleftrightarrow>
     is_int32 (int4_x rect) \<and> is_int32 (int4_y rect) \<and>
     is_int32 (int4_z rect) \<and> is_int32 (int4_w rect) \<and>
     int4_x rect \<le> int4_z rect \<and> int4_y rect \<le> int4_w rect \<and>
     2 * ((int4_w rect - int4_y rect) * ((int4_z rect - int4_x rect + 3) div 4 * 4)) < 2147483648"

definition in_rect :: "int4 \<Rightarrow> int \<Rightarrow> int \<Rightarrow> bool" where
  "in_rect rect x y \<longleftrightarrow>
     int4_x rect \<le> x \<and> x < int4_z rect \<and> int4_y rect \<le> y \<and> y < int4_w rect"

text \<open>The width of the rect rounded up to a multiple of four, without wrap-around.\<close>

definition aligned_width :: "int4 \<Rightarrow> int" where
  "aligned_width rect = (int4_z rect - int4_x rect + 3) div 4 * 4"

text \<open>
  The denoising buffers passed to a tile kernel are separate allocations: their memory blocks
  differ from each other and from the blocks of the nine render buffers.
\<close>

definition shadow_buffers_separate ::
  "(int \<Rightarrow> float_ptr) \<Rightarrow> float_ptr \<Rightarrow> float_ptr \<Rightarrow> float_ptr \<Rightarrow> float_ptr \<Rightarrow> bool" where
  "shadow_buffers_separate buffers unfiltered sampleVariance sampleVarianceV bufferVariance \<longleftrightarrow>
     distinct [fst unfiltered, fst sampleVariance, fst sampleVarianceV, fst bufferVariance] \<and>
     list_all (\<lambda>tile. fst (buffers tile) \<notin>
         {fst unfiltered, fst sampleVariance, fst sampleVarianceV, fst bufferVariance}) [0..8]"

definition feature_buffers_separate :: "(int \<Rightarrow> float_ptr) \<Rightarrow> float_ptr \<Rightarrow> float_ptr \<Rightarrow> bool" where
  "feature_buffers_separate buffers mean variance \<longleftrightarrow>
     fst mean \<noteq> fst variance \<and>
     list_all (\<lambda>tile. fst (buffers tile) \<notin> {fst mean, fst variance}) [0..8]"

text \<open>
  The patch divisors \<open>1e-7 + k_2 * (variance[i] + variance[j])\<close> of the filter are not zero;
  this holds in particular for \<open>k_2 \<ge> 0\<close> and a variance buffer without negative entries.
\<close>

definition nlm_divisors_nonzero :: "real \<Rightarrow> (int \<Rightarrow> real) \<Rightarrow> bool" where
  "nlm_divisors_nonzero k_2 variance \<longleftrightarrow>
     (\<forall>i j. 1 / 10000000 + k_2 * (variance i + variance j) \<noteq> 0)"

text \<open>
  The weight of the candidate \<open>q = (qx, qy)\<close> for the target pixel \<open>(x, y)\<close>: the loop body
  with the values that \<open>w\<close>, \<open>p_idx\<close> and \<open>q_idx\<close> have when the loops reach \<open>q\<close>.
\<close>

definition nlm_weight ::
  "(int \<Rightarrow> real) \<Rightarrow> (int \<Rightarrow> real) \<Rightarrow> int4 \<Rightarrow> int \<Rightarrow> real \<Rightarrow> real \<Rightarrow> int \<Rightarrow> int \<Rightarrow> int \<Rightarrow> int
     \<Rightarrow> real option" where
  "nlm_weight weightImage variance rect f a k_2 x y qx qy =
     nlm_wI weightImage variance rect f a k_2 (filter_buffer_w rect) x y (filter_idx rect x y)
       qx qy (filter_idx rect qx qy)"

section \<open>Properties of the half combiner\<close>

lemma half_sq_diff_commute: "0.5 * (p - q) * (p - q) = 0.5 * (q - p) * (q - (p::real))"
  by (simp add: algebra_simps)

text \<open>
  Claim C7.  For every pixel, rect and pair of half images, swapping the two half images
  \<open>a\<close> and \<open>b\<close> changes neither output of \<open>kernel_filter_combine_halves\<close>: the mean
  \<open>0.5 * (a[idx] + b[idx])\<close> is symmetric and the variance \<open>0.5 * (a[idx] - b[idx])^2\<close> is
  invariant, whether or not each output pointer is null.
\<close>

theorem combine_halves_swap:
  "kernel_filter_combine_halves x y mean variance a b rect =
   kernel_filter_combine_halves x y mean variance b a rect"
proof -
  let ?i = "filter_idx rect x y"
  have m: "0.5 * (a ?i + b ?i) = 0.5 * (b ?i + a ?i)"
    by (simp add: add.commute)
  have v: "0.5 * (a ?i - b ?i) * (a ?i - b ?i) = 0.5 * (b ?i - a ?i) * (b ?i - a ?i)"
    by (rule half_sq_diff_commute)
  show ?thesis
    unfolding kernel_filter_combine_halves_def Let_def
    by (simp only: m v)
qed

section \<open>Wrap-around arithmetic\<close>

lemma int32_eq_signed_take_bit: "int32 v = signed_take_bit 31 v"
  by (simp add: int32_def signed_take_bit_eq_take_bit_shift take_bit_eq_mod)

lemma int32_id: "is_int32 v \<Longrightarrow> int32 v = v"
  by (simp add: int32_def is_int32_def)

lemma is_int32_int32 [simp]: "is_int32 (int32 v)"
proof -
  have "0 \<le> (v + 2147483648) mod 4294967296" "(v + 2147483648) mod 4294967296 < 4294967296"
    by simp_all
  then show ?thesis unfolding int32_def is_int32_def by linarith
qed

lemma int32_add_left [simp]: "int32 (int32 a + b) = int32 (a + b)"
  unfolding int32_eq_signed_take_bit
  by (metis signed_take_bit_add signed_take_bit_signed_take_bit min.idem)

lemma int32_add_right [simp]: "int32 (a + int32 b) = int32 (a + b)"
  by (metis add.commute int32_add_left)

lemma int32_diff_left [simp]: "int32 (int32 a - b) = int32 (a - b)"
  unfolding int32_eq_signed_take_bit
  by (metis signed_take_bit_diff signed_take_bit_signed_take_bit min.idem)

lemma int32_diff_right [simp]: "int32 (a - int32 b) = int32 (a - b)"
  unfolding int32_eq_signed_take_bit
  by (metis signed_take_bit_diff signed_take_bit_signed_take_bit min.idem)

lemma int32_mult_left [simp]: "int32 (int32 a * b) = int32 (a * b)"
  unfolding int32_eq_signed_take_bit
  by (metis signed_take_bit_mult signed_take_bit_signed_take_bit min.idem)

lemma int32_mult_right [simp]: "int32 (a * int32 b) = int32 (a * b)"
  by (metis mult.commute int32_mult_left)

lemma int32_shift_neq: "is_int32 a \<Longrightarrow> 0 < b \<Longrightarrow> b < 4294967296 \<Longrightarrow> int32 (a + b) = a \<Longrightarrow> False"
proof -
  assume a: "is_int32 a" "0 < b" "b < 4294967296" and e: "int32 (a + b) = a"
  define c where "c = a + 2147483648"
  have c: "0 \<le> c" "c < 4294967296" using a(1) by (simp_all add: c_def is_int32_def)
  have "(c + b) mod 4294967296 = c" using e by (simp add: int32_def c_def algebra_simps)
  then have "(c + b) mod 4294967296 = c mod 4294967296" using c by simp
  then have "b mod 4294967296 = 0"
    by (metis add_diff_cancel_left' mod_diff_cong diff_self mod_0)
  then show False using a(2,3) by simp
qed

section \<open>Valid rectangles\<close>

lemma aligned_width_bounds:
  "int4_z rect - int4_x rect \<le> aligned_width rect"
  "aligned_width rect < int4_z rect - int4_x rect + 4"
  unfolding aligned_width_def by presburger+

lemma valid_rect_sizes:
  assumes v: "rect_valid rect" and p: "in_rect rect x y"
  shows "0 < int4_w rect - int4_y rect" and "4 \<le> aligned_width rect"
    and "aligned_width rect < 1073741824"
    and "(int4_w rect - int4_y rect) * aligned_width rect < 1073741824"
proof -
  let ?h = "int4_w rect - int4_y rect" and ?W = "aligned_width rect"
  show h: "0 < ?h" using p by (simp add: in_rect_def)
  have "0 < int4_z rect - int4_x rect" using p by (simp add: in_rect_def)
  then show W: "4 \<le> ?W" unfolding aligned_width_def by presburger
  show A: "?h * ?W < 1073741824"
    using v by (simp add: rect_valid_def aligned_width_def)
  have "1 * ?W \<le> ?h * ?W" using h W by (intro mult_right_mono) simp_all
  then show "?W < 1073741824" using A by simp
qed

lemma filter_buffer_w_valid:
  assumes v: "rect_valid rect" and p: "in_rect rect x y"
  shows "filter_buffer_w rect = aligned_width rect"
proof -
  note s = valid_rect_sizes [OF v p] aligned_width_bounds [of rect]
  have "0 < int4_z rect - int4_x rect" using p by (simp add: in_rect_def)
  then have "sub32 (int4_z rect) (int4_x rect) = int4_z rect - int4_x rect"
    using s by (simp add: sub32_def int32_id is_int32_def)
  moreover have "is_int32 (aligned_width rect)"
    using s by (simp add: is_int32_def)
  then have "int32 (aligned_width rect) = aligned_width rect" by (rule int32_id)
  moreover have "(int4_z rect - int4_x rect + 4 - 1) div 4 * 4 = aligned_width rect"
    by (simp add: aligned_width_def)
  ultimately show ?thesis
    by (simp only: filter_buffer_w_def align_up_def)
qed

lemma shadow_Bofs_valid:
  assumes v: "rect_valid rect" and p: "in_rect rect x y"
  shows "shadow_Bofs rect = (int4_w rect - int4_y rect) * aligned_width rect"
proof -
  note s = valid_rect_sizes [OF v p]
  have "0 \<le> (int4_w rect - int4_y rect) * aligned_width rect"
    using s by (intro mult_nonneg_nonneg) simp_all
  then have "is_int32 ((int4_w rect - int4_y rect) * aligned_width rect)"
    unfolding is_int32_def using s(4) by linarith
  then have "int32 ((int4_w rect - int4_y rect) * aligned_width rect)
      = (int4_w rect - int4_y rect) * aligned_width rect" by (rule int32_id)
  then show ?thesis
    by (simp add: shadow_Bofs_def filter_buffer_w_valid [OF v p] mul32_def sub32_def)
qed

lemma filter_idx_valid:
  assumes v: "rect_valid rect" and p: "in_rect rect x y"
  shows "filter_idx rect x y = (y - int4_y rect) * aligned_width rect + (x - int4_x rect)"
    and "0 \<le> filter_idx rect x y"
    and "filter_idx rect x y < (int4_w rect - int4_y rect) * aligned_width rect"
proof -
  let ?h = "int4_w rect - int4_y rect" and ?W = "aligned_width rect"
  let ?i = "(y - int4_y rect) * ?W + (x - int4_x rect)"
  note s = valid_rect_sizes [OF v p] aligned_width_bounds [of rect]
  have r: "0 \<le> y - int4_y rect" "y - int4_y rect + 1 \<le> ?h" "0 \<le> x - int4_x rect" "x - int4_x rect < ?W"
    using p s by (simp_all add: in_rect_def)
  have "(y - int4_y rect + 1) * ?W \<le> ?h * ?W"
    using r s by (intro mult_right_mono) simp_all
  then have hi: "?i < ?h * ?W" using r by (simp add: algebra_simps)
  have lo: "0 \<le> ?i" using r s by simp
  have e: "filter_idx rect x y = int32 ?i"
    by (simp add: filter_idx_def filter_buffer_w_valid [OF v p] add32_def mul32_def sub32_def)
  have "is_int32 ?i" unfolding is_int32_def using lo hi s(4) by linarith
  then have "int32 ?i = ?i" by (rule int32_id)
  then show "filter_idx rect x y = ?i" using e by simp
  then show "0 \<le> filter_idx rect x y" "filter_idx rect x y < ?h * ?W" using lo hi by simp_all
qed

lemma idx_Bofs_distinct:
  assumes v: "rect_valid rect" and p: "in_rect rect x y"
  shows "add32 (filter_idx rect x y) (shadow_Bofs rect) \<noteq> filter_idx rect x y"
proof
  assume e: "add32 (filter_idx rect x y) (shadow_Bofs rect) = filter_idx rect x y"
  note s = valid_rect_sizes [OF v p]
  have "0 < (int4_w rect - int4_y rect) * aligned_width rect"
    using s by (intro mult_pos_pos) simp_all
  then have b: "0 < shadow_Bofs rect" "shadow_Bofs rect < 4294967296"
    using s by (simp_all add: shadow_Bofs_valid [OF v p])
  have "is_int32 (filter_idx rect x y)" by (simp add: filter_idx_def add32_def)
  from int32_shift_neq [OF this b] e show False by (simp add: add32_def)
qed

section \<open>Example inputs\<close>

text \<open>
  The concrete inputs of the instances below: the \<open>4 \<times> 4\<close> rect at the origin with the
  pixel \<open>(1, 1)\<close>, one render buffer block and separate denoising buffers.
\<close>

lemma example_rect_valid: "rect_valid \<lparr>int4_x = 0, int4_y = 0, int4_z = 4, int4_w = 4\<rparr>"
  by (simp add: rect_valid_def is_int32_def)

lemma example_in_rect: "in_rect \<lparr>int4_x = 0, int4_y = 0, int4_z = 4, int4_w = 4\<rparr> 1 1"
  by (simp add: in_rect_def)

lemma example_idx: "filter_idx \<lparr>int4_x = 0, int4_y = 0, int4_z = 4, int4_w = 4\<rparr> 1 1 = 5"
  by (simp add: filter_idx_def filter_buffer_w_def align_up_def add32_def mul32_def sub32_def
      int32_def)

lemma example_align: "align_up 4 4 = 4"
  by (simp add: align_up_def int32_def)

lemma example_center_buffer:
  "filter_center_buffer \<lparr>pass_stride = 1, pass_denoising = 0\<rparr> (\<lambda>tile. (0, 0))
     (\<lambda>i. 0) (\<lambda>i. 0) (\<lambda>i. 0) (\<lambda>i. 0) 1 1 = (0, 1)"
  by (simp add: filter_center_buffer_def filter_tile_def Let_def ptr_add_def add32_def mul32_def
      int32_def)

lemma example_shadow_separate:
  "shadow_buffers_separate (\<lambda>tile. (0, 0)) (1, 0) (2, 0) (3, 0) (4, 0)"
  by (simp add: shadow_buffers_separate_def list_all_iff)

lemma example_feature_separate: "feature_buffers_separate (\<lambda>tile. (0, 0)) (1, 0) (2, 0)"
  by (simp add: feature_buffers_separate_def list_all_iff)

lemma example_window:
  "nlm_low \<lparr>int4_x = 0, int4_y = 0, int4_z = 4, int4_w = 4\<rparr> 1 1 1 = (0, 0)"
  "nlm_high \<lparr>int4_x = 0, int4_y = 0, int4_z = 4, int4_w = 4\<rparr> 1 1 1 = (3, 3)"
  by (simp_all add: nlm_low_def nlm_high_def add32_def sub32_def int32_def)

section \<open>Loads and stores of the shadow division\<close>

lemma filter_tile_range: "filter_tile tile_x tile_y x y \<in> set [0..8]"
  by (simp add: filter_tile_def Let_def add32_def mul32_def int32_def)

lemma fst_center_buffer:
  "fst (filter_center_buffer kg buffers tile_x tile_y offset stride x y)
     = fst (buffers (filter_tile tile_x tile_y x y))"
  by (simp add: filter_center_buffer_def Let_def ptr_add_def)

lemma separate_center:
  assumes "shadow_buffers_separate buffers unfiltered sampleVariance sampleVarianceV bufferVariance"
  shows "fst (filter_center_buffer kg buffers tile_x tile_y offset stride x y) \<notin>
     {fst unfiltered, fst sampleVariance, fst sampleVarianceV, fst bufferVariance}"
proof -
  from assms have "\<forall>t\<in>set [0..8]. fst (buffers t) \<notin>
         {fst unfiltered, fst sampleVariance, fst sampleVarianceV, fst bufferVariance}"
    unfolding shadow_buffers_separate_def list_all_iff by blast
  with filter_tile_range [of tile_x tile_y x y] show ?thesis
    unfolding fst_center_buffer by blast
qed

lemma load_store:
  "load (store h p i v) q j = (if fst q = fst p \<and> snd q + j = snd p + i then v else load h q j)"
  by (simp add: load_def store_def)

lemma written_store: "written (store h p i v) = written h @ [(ptr_add p i, v)]"
  by (simp add: store_def)

lemma mem_store: "mem (store h p i v) = (mem h)(fst p := (mem h (fst p))(snd p + i := v))"
  by (simp add: store_def)

lemma divide_shadow_loads:
  fixes kg sample buffers x y tile_x tile_y offset stride unfiltered sampleVariance
    sampleVarianceV bufferVariance rect h0
  defines "cb \<equiv> filter_center_buffer kg buffers tile_x tile_y offset stride x y"
    and "idx \<equiv> filter_idx rect x y"
    and "h' \<equiv> kernel_filter_divide_shadow kg sample buffers x y tile_x tile_y offset stride
          unfiltered sampleVariance sampleVarianceV bufferVariance rect h0"
    and "varFac \<equiv> 1 / real_of_int (mul32 sample (sub32 sample 1))"
  assumes sep: "shadow_buffers_separate buffers unfiltered sampleVariance sampleVarianceV bufferVariance"
  shows "load h' unfiltered (add32 idx (shadow_Bofs rect)) = load h0 cb 18 / max (load h0 cb 17) (1 / 10000000)"
    and "add32 idx (shadow_Bofs rect) \<noteq> idx \<Longrightarrow>
           load h' unfiltered idx = load h0 cb 15 / max (load h0 cb 14) (1 / 10000000)"
    and "load h' sampleVariance idx = (load h0 cb 16 + load h0 cb 19) * varFac"
    and "load h' sampleVarianceV idx
           = 0.5 * (load h0 cb 16 - load h0 cb 19) * (load h0 cb 16 - load h0 cb 19) * varFac"
    and "load h' bufferVariance idx
           = 0.5 * (load h' unfiltered idx - load h' unfiltered (add32 idx (shadow_Bofs rect)))
                 * (load h' unfiltered idx - load h' unfiltered (add32 idx (shadow_Bofs rect)))"
proof -
  have d: "distinct [fst unfiltered, fst sampleVariance, fst sampleVarianceV, fst bufferVariance]"
    using sep by (simp add: shadow_buffers_separate_def)
  have c: "fst cb \<notin> {fst unfiltered, fst sampleVariance, fst sampleVarianceV, fst bufferVariance}"
    unfolding cb_def using sep by (rule separate_center)
  note defs = h'_def kernel_filter_divide_shadow_def Let_def load_store cb_def [symmetric]
    idx_def [symmetric] varFac_def
  show "load h' unfiltered (add32 idx (shadow_Bofs rect)) = load h0 cb 18 / max (load h0 cb 17) (1 / 10000000)"
    using d c by (simp add: defs)
  show "add32 idx (shadow_Bofs rect) \<noteq> idx \<Longrightarrow>
           load h' unfiltered idx = load h0 cb 15 / max (load h0 cb 14) (1 / 10000000)"
    using d c by (simp add: defs)
  show "load h' sampleVariance idx = (load h0 cb 16 + load h0 cb 19) * varFac"
    using d c by (simp add: defs)
  show "load h' sampleVarianceV idx
           = 0.5 * (load h0 cb 16 - load h0 cb 19) * (load h0 cb 16 - load h0 cb 19) * varFac"
    using d c by (simp add: defs)
  show "load h' bufferVariance idx
           = 0.5 * (load h' unfiltered idx - load h' unfiltered (add32 idx (shadow_Bofs rect)))
                 * (load h' unfiltered idx - load h' unfiltered (add32 idx (shadow_Bofs rect)))"
    using d c by (simp add: defs)
qed

section \<open>The unfiltered half images\<close>

lemma align_up_valid:
  assumes v: "rect_valid rect" and p: "in_rect rect x y"
  shows "align_up (int4_z rect - int4_x rect) 4 = aligned_width rect"
proof -
  have "is_int32 (aligned_width rect)"
    using valid_rect_sizes [OF v p] by (simp add: is_int32_def)
  then have "int32 (aligned_width rect) = aligned_width rect" by (rule int32_id)
  moreover have "(int4_z rect - int4_x rect + 4 - 1) div 4 * 4 = aligned_width rect"
    by (simp add: aligned_width_def)
  ultimately show ?thesis by (simp only: align_up_def)
qed

lemma add_idx_Bofs_valid:
  assumes v: "rect_valid rect" and p: "in_rect rect x y"
  shows "add32 (filter_idx rect x y) (shadow_Bofs rect)
     = filter_idx rect x y + (int4_w rect - int4_y rect) * align_up (int4_z rect - int4_x rect) 4"
proof -
  note s = valid_rect_sizes [OF v p] filter_idx_valid(2,3) [OF v p]
  have "is_int32 (filter_idx rect x y + (int4_w rect - int4_y rect) * aligned_width rect)"
    unfolding is_int32_def using s by linarith
  then show ?thesis
    by (simp add: add32_def shadow_Bofs_valid [OF v p] align_up_valid [OF v p] int32_id)
qed

lemma sample_product:
  assumes "2 \<le> sample" "sample \<le> 46341"
  shows "mul32 sample (sub32 sample 1) = sample * (sample - 1)"
proof -
  have "sample * (sample - 1) \<le> 46341 * 46340"
    using assms by (intro mult_mono) simp_all
  moreover have "0 \<le> sample * (sample - 1)" using assms by simp
  ultimately have "is_int32 (sample * (sample - 1))" by (simp add: is_int32_def)
  then have "int32 (sample * (sample - 1)) = sample * (sample - 1)" by (rule int32_id)
  then show ?thesis by (simp add: mul32_def sub32_def)
qed

text \<open>
  Claim C5.  For a pixel of a valid rect, after \<open>kernel_filter_divide_shadow\<close> the buffer
  \<open>unfiltered\<close> holds \<open>center_buffer[15] / max(center_buffer[14], 1e-7)\<close> at \<open>idx\<close> and
  \<open>center_buffer[18] / max(center_buffer[17], 1e-7)\<close> at \<open>idx + Bofs\<close>, where
  \<open>Bofs = (rect.w - rect.y) * align_up(rect.z - rect.x, 4)\<close>.  Both divisors are positive, and
  when \<open>center_buffer[14]\<close> is zero the first value is \<open>center_buffer[15] / 1e-7\<close>.
\<close>

theorem divide_shadow_unfiltered:
  assumes sep: "shadow_buffers_separate buffers unfiltered sampleVariance sampleVarianceV bufferVariance"
    and v: "rect_valid rect" and p: "in_rect rect x y"
  shows "(let center_buffer = filter_center_buffer kg buffers tile_x tile_y offset stride x y;
              idx = filter_idx rect x y;
              Bofs = (int4_w rect - int4_y rect) * align_up (int4_z rect - int4_x rect) 4;
              h' = kernel_filter_divide_shadow kg sample buffers x y tile_x tile_y offset stride
                     unfiltered sampleVariance sampleVarianceV bufferVariance rect h0
          in load h' unfiltered idx
               = load h0 center_buffer 15 / max (load h0 center_buffer 14) (1 / 10000000) \<and>
             load h' unfiltered (idx + Bofs)
               = load h0 center_buffer 18 / max (load h0 center_buffer 17) (1 / 10000000) \<and>
             0 < max (load h0 center_buffer 14) (1 / 10000000) \<and>
             0 < max (load h0 center_buffer 17) (1 / 10000000) \<and>
             (load h0 center_buffer 14 = 0 \<longrightarrow>
                load h' unfiltered idx = load h0 center_buffer 15 / (1 / 10000000)))"
proof -
  let ?cb = "filter_center_buffer kg buffers tile_x tile_y offset stride x y"
  let ?idx = "filter_idx rect x y"
  let ?h' = "kernel_filter_divide_shadow kg sample buffers x y tile_x tile_y offset stride
               unfiltered sampleVariance sampleVarianceV bufferVariance rect h0"
  have A: "load ?h' unfiltered ?idx = load h0 ?cb 15 / max (load h0 ?cb 14) (1 / 10000000)"
    using divide_shadow_loads(2) [OF sep] idx_Bofs_distinct [OF v p] by blast
  have B: "load ?h' unfiltered (?idx + (int4_w rect - int4_y rect) * align_up (int4_z rect - int4_x rect) 4)
      = load h0 ?cb 18 / max (load h0 ?cb 17) (1 / 10000000)"
    using divide_shadow_loads(1) [OF sep] by (simp only: add_idx_Bofs_valid [OF v p, symmetric])
  have Z: "load h0 ?cb 14 = 0 \<Longrightarrow> max (load h0 ?cb 14) (1 / 10000000) = 1 / 10000000"
    by simp
  show ?thesis
    unfolding Let_def using A B Z by (simp add: less_max_iff_disj)
qed

theorem divide_shadow_unfiltered_witness:
  "load (kernel_filter_divide_shadow \<lparr>pass_stride = 1, pass_denoising = 0\<rparr> 4
       (\<lambda>tile. (0, 0)) 1 1 (\<lambda>i. 0) (\<lambda>i. 0) (\<lambda>i. 0) (\<lambda>i. 0) (1, 0) (2, 0) (3, 0) (4, 0)
       \<lparr>int4_x = 0, int4_y = 0, int4_z = 4, int4_w = 4\<rparr>
       \<lparr>mem = \<lambda>b i. real_of_int (i - 15), written = []\<rparr>) (1, 0) 5 = 10000000"
proof -
  have p: "in_rect \<lparr>int4_x = 0, int4_y = 0, int4_z = 4, int4_w = 4\<rparr> 1 1"
    by (simp add: in_rect_def)
  show ?thesis
    using divide_shadow_unfiltered [OF example_shadow_separate example_rect_valid p,
        of "\<lparr>pass_stride = 1, pass_denoising = 0\<rparr>" "\<lambda>i. 0" "\<lambda>i. 0" "\<lambda>i. 0" "\<lambda>i. 0" 4
           "\<lparr>mem = \<lambda>b i. real_of_int (i - 15), written = []\<rparr>"]
    by (simp add: Let_def example_idx example_center_buffer load_def)
qed

section \<open>The loops of the non-local means filter\<close>

text \<open>
  The loops over the search window add up one weight per candidate: when every weight is
  defined, \<open>sum_weight\<close> is the sum of the weights and \<open>sum_image\<close> the sum of the weighted
  \<open>noisyImage\<close> values over the window, and \<open>q_idx\<close> is the buffer index of the candidate.
\<close>

lemma int_range_split: "l < h \<Longrightarrow> {l..<h} = insert l {l + 1..<h::int}"
  by auto

lemma sum_int_range_first:
  fixes g :: "int \<Rightarrow> real"
  assumes "l < h"
  shows "(\<Sum>q = l..<h. g q) = g l + (\<Sum>q = l + 1..<h. g q)"
  by (simp add: int_range_split [OF assms])

lemma ball_int_range_first:
  assumes "l < h"
  shows "(\<forall>q\<in>{l..<h::int}. P q) \<longleftrightarrow> P l \<and> (\<forall>q\<in>{l + 1..<h}. P q)"
  by (simp add: int_range_split [OF assms])

lemma nlm_row_sums:
  "nlm_row N W V rect f a k w x y p qy [l..h - 1] (int32 (c + l), si, sw) =
     (if \<forall>qx\<in>{l..<h}. nlm_wI W V rect f a k w x y p qx qy (int32 (c + qx)) \<noteq> None
      then Some (int32 (c + max l h),
             si + (\<Sum>qx = l..<h. the (nlm_wI W V rect f a k w x y p qx qy (int32 (c + qx)))
                                     * N (int32 (c + qx))),
             sw + (\<Sum>qx = l..<h. the (nlm_wI W V rect f a k w x y p qx qy (int32 (c + qx)))))
      else None)"
proof -
  define F where "F qx = nlm_wI W V rect f a k w x y p qx qy (int32 (c + qx))" for qx
  have "nlm_row N W V rect f a k w x y p qy [l..h - 1] (int32 (c + l), si, sw) =
     (if \<forall>qx\<in>{l..<h}. F qx \<noteq> None
      then Some (int32 (c + max l h),
             si + (\<Sum>qx = l..<h. the (F qx) * N (int32 (c + qx))),
             sw + (\<Sum>qx = l..<h. the (F qx)))
      else None)"
  proof (induction "nat (h - l)" arbitrary: l si sw)
    case 0
    then have "h \<le> l" by simp
    then show ?case by (simp add: max_def)
  next
    case (Suc n)
    then have lh: "l < h" and n: "n = nat (h - (l + 1))" by linarith+
    have u: "[l..h - 1] = l # [l + 1..h - 1]" using lh by (simp add: upto_rec1)
    have m: "max (l + 1) h = max l h" using lh by simp
    have q: "add32 (int32 (c + l)) 1 = int32 (c + (l + 1))" by (simp add: add32_def add.assoc)
    show ?case
    proof (cases "F l")
      case None
      then have "nlm_row N W V rect f a k w x y p qy [l..h - 1] (int32 (c + l), si, sw) = None"
        unfolding u by (simp add: F_def)
      moreover have "\<not> (\<forall>qx\<in>{l..<h}. F qx \<noteq> None)"
        using None lh by (simp add: ball_int_range_first)
      ultimately show ?thesis by simp
    next
      case (Some w0)
      have "nlm_row N W V rect f a k w x y p qy [l..h - 1] (int32 (c + l), si, sw)
          = nlm_row N W V rect f a k w x y p qy [l + 1..h - 1]
              (int32 (c + (l + 1)), si + w0 * N (int32 (c + l)), sw + w0)"
        unfolding u using Some by (simp add: F_def [symmetric] q)
      also note Suc.hyps(1) [OF n]
      finally show ?thesis
        using Some by (simp add: m ball_int_range_first [OF lh] sum_int_range_first [OF lh]
            add.assoc)
    qed
  qed
  then show ?thesis unfolding F_def .
qed

lemma nlm_row_empty:
  "h \<le> l \<Longrightarrow> nlm_row N W V rect f a k w x y p qy [l..h - 1] st = Some st"
  by (cases st) simp

lemma nlm_rows_empty:
  "hx \<le> lx \<Longrightarrow>
     \<exists>q'. nlm_rows N W V rect f a k w x y p lx hx qys (q, si, sw) = Some (q', si, sw)"
  by (induction qys arbitrary: q) (simp_all add: nlm_row_empty)

lemma nlm_row_sums_idx:
  "nlm_row N W V rect f a k w x y p qy [l..h - 1] (int32 (b + (l - rx)), si, sw) =
     (if \<forall>qx\<in>{l..<h}. nlm_wI W V rect f a k w x y p qx qy (int32 (b + (qx - rx))) \<noteq> None
      then Some (int32 (b + (max l h - rx)),
             si + (\<Sum>qx = l..<h. the (nlm_wI W V rect f a k w x y p qx qy (int32 (b + (qx - rx))))
                                     * N (int32 (b + (qx - rx)))),
             sw + (\<Sum>qx = l..<h. the (nlm_wI W V rect f a k w x y p qx qy (int32 (b + (qx - rx))))))
      else None)"
proof -
  have e: "\<And>q. b - rx + q = b + (q - rx)" by simp
  show ?thesis
    using nlm_row_sums [of N W V rect f a k w x y p qy l h "b - rx" si sw]
    by (simp only: e)
qed

lemma nlm_row_advance:
  assumes "lx \<le> hx"
  shows "add32 (int32 ((l - ry) * w + (max lx hx - rx))) (sub32 w (sub32 hx lx))
      = int32 ((l + 1 - ry) * w + (lx - rx))"
proof -
  have "add32 (int32 ((l - ry) * w + (max lx hx - rx))) (sub32 w (sub32 hx lx))
      = int32 (((l - ry) * w + (max lx hx - rx)) + (w - (hx - lx)))"
    by (simp add: add32_def sub32_def)
  also have "((l - ry) * w + (max lx hx - rx)) + (w - (hx - lx)) = (l + 1 - ry) * w + (lx - rx)"
    using assms by (simp add: max_def algebra_simps)
  finally show ?thesis .
qed

lemma nlm_rows_sums:
  assumes lx: "lx \<le> hx"
  shows "nlm_rows N W V rect f a k w x y p lx hx [l..h - 1]
       (int32 ((l - ry) * w + (lx - rx)), si, sw) =
     (if \<forall>qy\<in>{l..<h}. \<forall>qx\<in>{lx..<hx}.
           nlm_wI W V rect f a k w x y p qx qy (int32 ((qy - ry) * w + (qx - rx))) \<noteq> None
      then Some (int32 ((max l h - ry) * w + (lx - rx)),
             si + (\<Sum>qy = l..<h. \<Sum>qx = lx..<hx.
                     the (nlm_wI W V rect f a k w x y p qx qy (int32 ((qy - ry) * w + (qx - rx))))
                       * N (int32 ((qy - ry) * w + (qx - rx)))),
             sw + (\<Sum>qy = l..<h. \<Sum>qx = lx..<hx.
                     the (nlm_wI W V rect f a k w x y p qx qy (int32 ((qy - ry) * w + (qx - rx))))))
      else None)"
proof -
  define F where "F qy qx = nlm_wI W V rect f a k w x y p qx qy (int32 ((qy - ry) * w + (qx - rx)))"
    for qy qx
  define G where "G qy qx = the (F qy qx) * N (int32 ((qy - ry) * w + (qx - rx)))" for qy qx
  have row: "nlm_row N W V rect f a k w x y p qy [lx..hx - 1]
         (int32 ((qy - ry) * w + (lx - rx)), si, sw) =
       (if \<forall>qx\<in>{lx..<hx}. F qy qx \<noteq> None
        then Some (int32 ((qy - ry) * w + (max lx hx - rx)),
               si + (\<Sum>qx = lx..<hx. G qy qx), sw + (\<Sum>qx = lx..<hx. the (F qy qx)))
        else None)" for qy si sw
    unfolding F_def G_def by (rule nlm_row_sums_idx)
  have "nlm_rows N W V rect f a k w x y p lx hx [l..h - 1]
       (int32 ((l - ry) * w + (lx - rx)), si, sw) =
     (if \<forall>qy\<in>{l..<h}. \<forall>qx\<in>{lx..<hx}. F qy qx \<noteq> None
      then Some (int32 ((max l h - ry) * w + (lx - rx)),
             si + (\<Sum>qy = l..<h. \<Sum>qx = lx..<hx. G qy qx),
             sw + (\<Sum>qy = l..<h. \<Sum>qx = lx..<hx. the (F qy qx)))
      else None)"
  proof (induction "nat (h - l)" arbitrary: l si sw)
    case 0
    then have "h \<le> l" by simp
    then show ?case by (simp add: max_def)
  next
    case (Suc n)
    then have lh: "l < h" and n: "n = nat (h - (l + 1))" by linarith+
    have u: "[l..h - 1] = l # [l + 1..h - 1]" using lh by (simp add: upto_rec1)
    have m: "max (l + 1) h = max l h" using lh by simp
    show ?case
    proof (cases "\<forall>qx\<in>{lx..<hx}. F l qx \<noteq> None")
      case False
      then have "nlm_row N W V rect f a k w x y p l [lx..hx - 1]
         (int32 ((l - ry) * w + (lx - rx)), si, sw) = None"
        by (simp only: row if_False)
      then have "nlm_rows N W V rect f a k w x y p lx hx [l..h - 1]
          (int32 ((l - ry) * w + (lx - rx)), si, sw) = None"
        unfolding u by simp
      moreover have "\<not> (\<forall>qy\<in>{l..<h}. \<forall>qx\<in>{lx..<hx}. F qy qx \<noteq> None)"
        using False lh by (simp add: ball_int_range_first)
      ultimately show ?thesis by simp
    next
      case True
      have "nlm_rows N W V rect f a k w x y p lx hx [l..h - 1]
            (int32 ((l - ry) * w + (lx - rx)), si, sw)
          = nlm_rows N W V rect f a k w x y p lx hx [l + 1..h - 1]
              (int32 ((l + 1 - ry) * w + (lx - rx)), si + (\<Sum>qx = lx..<hx. G l qx),
               sw + (\<Sum>qx = lx..<hx. the (F l qx)))"
      proof -
        have "nlm_row N W V rect f a k w x y p l [lx..hx - 1]
              (int32 ((l - ry) * w + (lx - rx)), si, sw)
            = Some (int32 ((l - ry) * w + (max lx hx - rx)),
               si + (\<Sum>qx = lx..<hx. G l qx), sw + (\<Sum>qx = lx..<hx. the (F l qx)))"
          by (simp only: row if_P [OF True])
        then show ?thesis
          unfolding u by (simp add: nlm_row_advance [OF lx])
      qed
      also note Suc.hyps(1) [OF n]
      finally show ?thesis
        using True by (simp add: m ball_int_range_first [OF lh] sum_int_range_first [OF lh]
            add.assoc)
    qed
  qed
  then show ?thesis unfolding G_def F_def .
qed

lemma filter_idx_int32:
  "filter_idx rect qx qy
     = int32 ((qy - int4_y rect) * filter_buffer_w rect + (qx - int4_x rect))"
  by (simp add: filter_idx_def add32_def mul32_def sub32_def)

lemma nlm_sums_window:
  "nlm_sums x y N W V rect r f a k =
     (if \<forall>qy\<in>{snd (nlm_low rect x y r)..<snd (nlm_high rect x y r)}.
          \<forall>qx\<in>{fst (nlm_low rect x y r)..<fst (nlm_high rect x y r)}.
            nlm_weight W V rect f a k x y qx qy \<noteq> None
      then Some
        ((\<Sum>qy = snd (nlm_low rect x y r)..<snd (nlm_high rect x y r).
           \<Sum>qx = fst (nlm_low rect x y r)..<fst (nlm_high rect x y r).
             the (nlm_weight W V rect f a k x y qx qy) * N (filter_idx rect qx qy)),
         (\<Sum>qy = snd (nlm_low rect x y r)..<snd (nlm_high rect x y r).
           \<Sum>qx = fst (nlm_low rect x y r)..<fst (nlm_high rect x y r).
             the (nlm_weight W V rect f a k x y qx qy)))
      else None)"
proof (cases "fst (nlm_low rect x y r) \<le> fst (nlm_high rect x y r)")
  case True
  show ?thesis
    unfolding nlm_sums_def Let_def nlm_weight_def filter_idx_int32
    by (simp add: add32_def mul32_def sub32_def nlm_rows_sums [OF True])
next
  case False
  then have e: "fst (nlm_high rect x y r) \<le> fst (nlm_low rect x y r)" by simp
  obtain q' where "nlm_rows N W V rect f a k (filter_buffer_w rect) x y (filter_idx rect x y)
       (fst (nlm_low rect x y r)) (fst (nlm_high rect x y r))
       [snd (nlm_low rect x y r)..snd (nlm_high rect x y r) - 1]
       (add32 (mul32 (sub32 (snd (nlm_low rect x y r)) (int4_y rect)) (filter_buffer_w rect))
          (sub32 (fst (nlm_low rect x y r)) (int4_x rect)), 0, 0) = Some (q', 0, 0)"
    using nlm_rows_empty [OF e] by blast
  then show ?thesis
    unfolding nlm_sums_def Let_def using e by simp
qed

lemma nlm_sums_weights:
  assumes "\<forall>qy\<in>{snd (nlm_low rect x y r)..<snd (nlm_high rect x y r)}.
           \<forall>qx\<in>{fst (nlm_low rect x y r)..<fst (nlm_high rect x y r)}.
             nlm_weight W V rect f a k x y qx qy = Some (g qx qy)"
  shows "nlm_sums x y N W V rect r f a k =
     Some ((\<Sum>qy = snd (nlm_low rect x y r)..<snd (nlm_high rect x y r).
             \<Sum>qx = fst (nlm_low rect x y r)..<fst (nlm_high rect x y r).
               g qx qy * N (filter_idx rect qx qy)),
           (\<Sum>qy = snd (nlm_low rect x y r)..<snd (nlm_high rect x y r).
             \<Sum>qx = fst (nlm_low rect x y r)..<fst (nlm_high rect x y r). g qx qy))"
proof -
  have c: "\<forall>qy\<in>{snd (nlm_low rect x y r)..<snd (nlm_high rect x y r)}.
           \<forall>qx\<in>{fst (nlm_low rect x y r)..<fst (nlm_high rect x y r)}.
             nlm_weight W V rect f a k x y qx qy \<noteq> None"
    using assms by simp
  have t: "the (nlm_weight W V rect f a k x y qx qy) = g qx qy"
    if "qy \<in> {snd (nlm_low rect x y r)..<snd (nlm_high rect x y r)}"
       "qx \<in> {fst (nlm_low rect x y r)..<fst (nlm_high rect x y r)}" for qx qy
    using assms that by simp
  have s1: "(\<Sum>qy = snd (nlm_low rect x y r)..<snd (nlm_high rect x y r).
             \<Sum>qx = fst (nlm_low rect x y r)..<fst (nlm_high rect x y r).
               the (nlm_weight W V rect f a k x y qx qy) * N (filter_idx rect qx qy))
      = (\<Sum>qy = snd (nlm_low rect x y r)..<snd (nlm_high rect x y r).
             \<Sum>qx = fst (nlm_low rect x y r)..<fst (nlm_high rect x y r).
               g qx qy * N (filter_idx rect qx qy))"
    by (intro sum.cong refl) (simp add: t)
  have s2: "(\<Sum>qy = snd (nlm_low rect x y r)..<snd (nlm_high rect x y r).
             \<Sum>qx = fst (nlm_low rect x y r)..<fst (nlm_high rect x y r).
               the (nlm_weight W V rect f a k x y qx qy))
      = (\<Sum>qy = snd (nlm_low rect x y r)..<snd (nlm_high rect x y r).
             \<Sum>qx = fst (nlm_low rect x y r)..<fst (nlm_high rect x y r). g qx qy)"
    by (intro sum.cong refl) (simp add: t)
  show ?thesis
    by (simp only: nlm_sums_window if_P [OF c] s1 s2)
qed

lemma nlm_kernel_value:
  assumes "nlm_sums x y N W V rect r f a k = Some (si, sw)" and "sw \<noteq> 0"
  shows "kernel_filter_non_local_means x y N W V filteredImage rect r f a k
           = Some (filteredImage(filter_idx rect x y := si / sw))"
  using assms by (simp add: kernel_filter_non_local_means_def)

section \<open>Weights of the non-local means filter\<close>

text \<open>
  A weight that is defined is \<open>exp (- max 0 dI)\<close> and lies in \<open>(0, 1]\<close>.
\<close>

lemma nlm_patch_row_defined:
  assumes "nlm_divisors_nonzero k V"
  shows "nlm_patch_row W V a k p q dxs st \<noteq> None"
proof (induction dxs arbitrary: st)
  case Nil
  show ?case by (cases st) simp
next
  case (Cons dx dxs)
  obtain d dI where st: "st = (d, dI)" by (cases st)
  have "1 / 10000000 + k * (V (add32 p d) + V (add32 q d)) \<noteq> 0"
    using assms unfolding nlm_divisors_nonzero_def by blast
  then show ?case unfolding st by (simp add: Let_def Cons.IH)
qed

lemma nlm_patch_rows_defined:
  assumes "nlm_divisors_nonzero k V"
  shows "nlm_patch_rows W V a k p q w lx hx dys st \<noteq> None"
proof (induction dys arbitrary: st)
  case Nil
  show ?case by (cases st) simp
next
  case (Cons dy dys)
  obtain d dI where st: "st = (d, dI)" by (cases st)
  obtain d' dI' where "nlm_patch_row W V a k p q [lx..hx - 1] (d, dI) = Some (d', dI')"
    using nlm_patch_row_defined [OF assms, of W a p q "[lx..hx - 1]" "(d, dI)"] by auto
  then show ?case unfolding st by (simp add: Cons.IH)
qed

lemma nlm_wI_range:
  assumes "nlm_wI W V rect f a k w x y p qx qy q = Some wI"
  shows "0 < wI" and "wI \<le> 1"
proof -
  have "\<exists>t. wI = fast_expf (- max 0 t)"
    using assms unfolding nlm_wI_def Let_def
    by (cases "nlm_patch_rows W V a k p q w (fst (nlm_low_dPatch rect f x y qx qy))
         (fst (nlm_high_dPatch rect f x y qx qy))
         [snd (nlm_low_dPatch rect f x y qx qy)..snd (nlm_high_dPatch rect f x y qx qy) - 1]
         (add32 (fst (nlm_low_dPatch rect f x y qx qy))
            (mul32 (snd (nlm_low_dPatch rect f x y qx qy)) w), 0)")
      (auto split: if_splits)
  then obtain t where e: "wI = fast_expf (- max 0 t)" by blast
  show "0 < wI" unfolding e by (simp add: fast_expf_def)
  show "wI \<le> 1" unfolding e by (simp add: fast_expf_def le_max_iff_disj)
qed

lemma nlm_weight_range:
  assumes "nlm_weight W V rect f a k x y qx qy = Some wI"
  shows "0 < wI" and "wI \<le> 1"
proof -
  note e = assms [unfolded nlm_weight_def]
  show "0 < wI" by (rule nlm_wI_range(1) [OF e])
  show "wI \<le> 1" by (rule nlm_wI_range(2) [OF e])
qed

lemma nlm_divisors_nonneg:
  assumes "0 \<le> k" "\<forall>i. 0 \<le> V i"
  shows "nlm_divisors_nonzero k V"
  unfolding nlm_divisors_nonzero_def
proof (intro allI)
  fix i j
  have "0 \<le> V i + V j" using assms(2) by (simp add: add_nonneg_nonneg)
  then have "0 \<le> k * (V i + V j)" using assms(1) by simp
  then show "1 / 10000000 + k * (V i + V j) \<noteq> 0" by linarith
qed

text \<open>
  The patch area.  For a patch size \<open>f \<ge> 0\<close> with \<open>f + 1\<close> representable, and \<open>p\<close> and
  \<open>q\<close> in a valid rect, the patch window contains the offset \<open>(0, 0)\<close> and its area is
  positive.  For \<open>f < 0\<close> with \<open>- f\<close> representable the patch window is empty and the
  area is the wrapped square of the odd number \<open>2 * f + 1\<close>, which is not zero.
\<close>

lemma int32_odd_nonzero: "odd v \<Longrightarrow> int32 v \<noteq> 0"
proof
  assume o: "odd v" and z: "int32 v = 0"
  from z have m: "(v + 2147483648) mod 4294967296 = 2147483648" by (simp add: int32_def)
  have "v + 2147483648
      = 4294967296 * ((v + 2147483648) div 4294967296) + (v + 2147483648) mod 4294967296"
    by (rule mult_div_mod_eq [symmetric])
  then have "v = 4294967296 * ((v + 2147483648) div 4294967296)" unfolding m by linarith
  then have "even v" by (metis even_mult_iff even_numeral)
  with o show False by simp
qed

lemma valid_rect_offsets:
  assumes v: "rect_valid rect" and p: "in_rect rect x y"
  shows "sub32 (int4_x rect) x = int4_x rect - x" and "sub32 (int4_z rect) x = int4_z rect - x"
    and "sub32 (int4_y rect) y = int4_y rect - y" and "sub32 (int4_w rect) y = int4_w rect - y"
    and "int4_w rect - int4_y rect < 1073741824"
proof -
  note s = valid_rect_sizes [OF v p] aligned_width_bounds [of rect]
  have "(int4_w rect - int4_y rect) * 1 \<le> (int4_w rect - int4_y rect) * aligned_width rect"
    using s by (intro mult_left_mono) simp_all
  then show h: "int4_w rect - int4_y rect < 1073741824" using s(4) by simp
  have c: "is_int32 (int4_x rect - x)" "is_int32 (int4_z rect - x)"
          "is_int32 (int4_y rect - y)" "is_int32 (int4_w rect - y)"
    using p s h unfolding is_int32_def in_rect_def by linarith+
  show "sub32 (int4_x rect) x = int4_x rect - x" "sub32 (int4_z rect) x = int4_z rect - x"
       "sub32 (int4_y rect) y = int4_y rect - y" "sub32 (int4_w rect) y = int4_w rect - y"
    using c by (simp_all add: sub32_def int32_id)
qed

lemma nlm_patch_area_positive:
  assumes v: "rect_valid rect" and p: "in_rect rect x y" and q: "in_rect rect qx qy"
    and f: "0 \<le> f" "is_int32 (f + 1)"
  shows "0 < nlm_patch_area rect f x y qx qy"
proof -
  note s = valid_rect_sizes [OF v p] aligned_width_bounds [of rect]
  note ep = valid_rect_offsets [OF v p] and eq = valid_rect_offsets [OF v q]
  have n: "neg32 f = - f" "add32 f 1 = f + 1"
    using f by (simp_all add: neg32_def add32_def int32_id is_int32_def)
  define lx where "lx = fst (nlm_low_dPatch rect f x y qx qy)"
  define ly where "ly = snd (nlm_low_dPatch rect f x y qx qy)"
  define hx where "hx = fst (nlm_high_dPatch rect f x y qx qy)"
  define hy where "hy = snd (nlm_high_dPatch rect f x y qx qy)"
  have xb: "int4_x rect - x \<le> lx" "lx \<le> 0" "1 \<le> hx" "hx \<le> int4_z rect - x"
    using p q f(1) unfolding lx_def hx_def nlm_low_dPatch_def nlm_high_dPatch_def ep eq n
      in_rect_def by simp_all
  have yb: "int4_y rect - y \<le> ly" "ly \<le> 0" "1 \<le> hy" "hy \<le> int4_w rect - y"
    using p q f(1) unfolding ly_def hy_def nlm_low_dPatch_def nlm_high_dPatch_def ep eq n
      in_rect_def by simp_all
  have dx: "0 < hx - lx" "hx - lx \<le> aligned_width rect" using xb s by linarith+
  have dy: "0 < hy - ly" "hy - ly \<le> int4_w rect - int4_y rect" using yb by linarith+
  have "(hx - lx) * (hy - ly) \<le> aligned_width rect * (int4_w rect - int4_y rect)"
    using dx dy by (intro mult_mono) simp_all
  then have hi: "(hx - lx) * (hy - ly) < 1073741824" using s(4) by (simp add: mult.commute)
  have lo: "0 < (hx - lx) * (hy - ly)" using dx dy by (intro mult_pos_pos)
  have "nlm_patch_area rect f x y qx qy = int32 ((hx - lx) * (hy - ly))"
    by (simp add: nlm_patch_area_def Let_def mul32_def sub32_def lx_def ly_def hx_def hy_def)
  also have "\<dots> = (hx - lx) * (hy - ly)"
    using lo hi by (intro int32_id) (simp add: is_int32_def)
  finally show ?thesis using lo by simp
qed

lemma nlm_patch_area_negative_f:
  assumes v: "rect_valid rect" and p: "in_rect rect x y" and q: "in_rect rect qx qy"
    and f: "f < 0" "is_int32 (- f)"
  shows "nlm_low_dPatch rect f x y qx qy = (- f, - f)"
    and "nlm_high_dPatch rect f x y qx qy = (f + 1, f + 1)"
    and "nlm_patch_area rect f x y qx qy \<noteq> 0"
proof -
  note ep = valid_rect_offsets [OF v p] and eq = valid_rect_offsets [OF v q]
  have n: "neg32 f = - f" "add32 f 1 = f + 1"
    using f by (simp_all add: neg32_def add32_def int32_id is_int32_def)
  show l: "nlm_low_dPatch rect f x y qx qy = (- f, - f)"
    using p q f(1) unfolding nlm_low_dPatch_def ep eq n in_rect_def by simp
  show h: "nlm_high_dPatch rect f x y qx qy = (f + 1, f + 1)"
    using p q f(1) unfolding nlm_high_dPatch_def ep eq n in_rect_def by simp
  have "nlm_patch_area rect f x y qx qy = int32 ((f + 1 - - f) * (f + 1 - - f))"
    by (simp add: nlm_patch_area_def Let_def l h mul32_def sub32_def)
  moreover have "odd ((f + 1 - - f) * (f + 1 - - f))" by simp
  ultimately show "nlm_patch_area rect f x y qx qy \<noteq> 0"
    using int32_odd_nonzero by simp
qed

lemma nlm_patch_area_nonzero:
  assumes v: "rect_valid rect" and p: "in_rect rect x y" and q: "in_rect rect qx qy"
    and f: "is_int32 (- f)" "is_int32 (f + 1)"
  shows "nlm_patch_area rect f x y qx qy \<noteq> 0"
proof (cases "0 \<le> f")
  case True
  then show ?thesis using nlm_patch_area_positive [OF v p q True f(2)] by simp
next
  case False
  then have "f < 0" by simp
  then show ?thesis by (rule nlm_patch_area_negative_f(3) [OF v p q _ f(1)])
qed

lemma nlm_wI_defined:
  assumes v: "rect_valid rect" and p: "in_rect rect x y" and q: "in_rect rect qx qy"
    and f: "is_int32 (- f)" "is_int32 (f + 1)"
    and d: "nlm_divisors_nonzero k V"
  shows "\<exists>wI. nlm_wI W V rect f a k w x y p_idx qx qy q_idx = Some wI \<and> 0 < wI \<and> wI \<le> 1"
proof -
  let ?L = "nlm_low_dPatch rect f x y qx qy" and ?H = "nlm_high_dPatch rect f x y qx qy"
  obtain d' dI where "nlm_patch_rows W V a k p_idx q_idx w (fst ?L) (fst ?H)
         [snd ?L..snd ?H - 1] (add32 (fst ?L) (mul32 (snd ?L) w), 0) = Some (d', dI)"
    using nlm_patch_rows_defined [OF d, of W a p_idx q_idx w "fst ?L" "fst ?H"
        "[snd ?L..snd ?H - 1]" "(add32 (fst ?L) (mul32 (snd ?L) w), 0)"] by auto
  then obtain wI where e: "nlm_wI W V rect f a k w x y p_idx qx qy q_idx = Some wI"
    using nlm_patch_area_nonzero [OF v p q f] by (simp add: nlm_wI_def Let_def)
  with nlm_wI_range [OF e] show ?thesis by blast
qed

text \<open>
  Outside these ranges a division by zero occurs.  With \<open>f = 2147483647\<close> the sum
  \<open>f + 1\<close> wraps around to the smallest integer; for \<open>p = q = (0, 0)\<close> in the rect
  \<open>(0, 0, 4, 4)\<close> the patch window is empty, so \<open>dI = 0\<close>, and its wrapped area
  \<open>2\<^sup>3\<^sup>1 * 2\<^sup>3\<^sup>1\<close> is \<open>0\<close>: the code computes \<open>0.0f * (1.0f / 0)\<close>, a NaN.
\<close>

lemma nlm_patch_size_overflow:
  "in_rect \<lparr>int4_x = 0, int4_y = 0, int4_z = 4, int4_w = 4\<rparr> 0 0 \<and>
   add32 2147483647 1 = - 2147483648 \<and>
   nlm_patch_area \<lparr>int4_x = 0, int4_y = 0, int4_z = 4, int4_w = 4\<rparr> 2147483647 0 0 0 0 = 0 \<and>
   nlm_weight (\<lambda>i. 5) (\<lambda>i. 0) \<lparr>int4_x = 0, int4_y = 0, int4_z = 4, int4_w = 4\<rparr>
     2147483647 1 1 0 0 0 0 = None \<and>
   kernel_filter_non_local_means 0 0 (\<lambda>i. 5) (\<lambda>i. 5) (\<lambda>i. 0) (\<lambda>i. 0)
       \<lparr>int4_x = 0, int4_y = 0, int4_z = 4, int4_w = 4\<rparr> 0 2147483647 1 1 = None"
proof -
  let ?R = "\<lparr>int4_x = 0, int4_y = 0, int4_z = 4, int4_w = 4\<rparr>"
  have l: "nlm_low_dPatch ?R 2147483647 0 0 0 0 = (0, 0)"
    and h: "nlm_high_dPatch ?R 2147483647 0 0 0 0 = (- 2147483648, - 2147483648)"
    by (simp_all add: nlm_low_dPatch_def nlm_high_dPatch_def add32_def sub32_def neg32_def
        int32_def)
  have ar: "nlm_patch_area ?R 2147483647 0 0 0 0 = 0"
    by (simp add: nlm_patch_area_def Let_def l h mul32_def sub32_def int32_def)
  have w: "nlm_weight (\<lambda>i. 5) (\<lambda>i. 0) ?R 2147483647 1 1 0 0 0 0 = None"
    by (simp add: nlm_weight_def nlm_wI_def Let_def l h ar)
  have win: "nlm_low ?R 0 0 0 = (0, 0)" "nlm_high ?R 0 0 0 = (1, 1)"
    by (simp_all add: nlm_low_def nlm_high_def add32_def sub32_def int32_def)
  have "\<exists>qy\<in>{0..<1::int}. \<exists>qx\<in>{0..<1::int}.
          nlm_weight (\<lambda>i. 5) (\<lambda>i. 0) ?R 2147483647 1 1 0 0 qx qy = None"
    using w by (intro bexI [of _ 0]) simp_all
  then have "nlm_sums 0 0 (\<lambda>i. 5) (\<lambda>i. 5) (\<lambda>i. 0) ?R 0 2147483647 1 1 = None"
    by (simp add: nlm_sums_window win)
  then have "kernel_filter_non_local_means 0 0 (\<lambda>i. 5) (\<lambda>i. 5) (\<lambda>i. 0) (\<lambda>i. 0) ?R
      0 2147483647 1 1 = None"
    by (simp add: kernel_filter_non_local_means_def)
  with ar w show ?thesis by (simp add: in_rect_def add32_def int32_def)
qed

text \<open>
  With \<open>k_2 = -1\<close> and every variance \<open>1 / 20000000\<close> the divisor
  \<open>1e-7 + k_2 * (variance[p] + variance[q])\<close> is zero; with \<open>a = 0\<close> and a constant weight
  image the code computes \<open>0.0f * (1.0f / 0.0f)\<close>, a NaN.
\<close>

lemma nlm_zero_divisor:
  "\<not> nlm_divisors_nonzero (- 1) (\<lambda>i. 1 / 20000000) \<and>
   nlm_weight (\<lambda>i. 0) (\<lambda>i. 1 / 20000000) \<lparr>int4_x = 0, int4_y = 0, int4_z = 1, int4_w = 1\<rparr>
     0 0 (- 1) 0 0 0 0 = None"
  by (simp add: nlm_divisors_nonzero_def nlm_weight_def nlm_wI_def nlm_low_dPatch_def
      nlm_high_dPatch_def Let_def filter_idx_def filter_buffer_w_def align_up_def add32_def
      sub32_def mul32_def neg32_def int32_def upto_rec1)

text \<open>
  With constant images and zero variance every term of \<open>dI\<close> is zero and the weight is
  \<open>exp 0 = 1\<close>.
\<close>

lemma nlm_patch_row_const:
  "\<exists>d'. nlm_patch_row (\<lambda>i. c) (\<lambda>i. 0) a k p q dxs (d, dI) = Some (d', dI)"
  by (induction dxs arbitrary: d dI) simp_all

lemma nlm_patch_rows_const:
  "\<exists>d'. nlm_patch_rows (\<lambda>i. c) (\<lambda>i. 0) a k p q w lx hx dys (d, dI) = Some (d', dI)"
proof (induction dys arbitrary: d dI)
  case Nil
  show ?case by simp
next
  case (Cons dy dys)
  obtain d' where "nlm_patch_row (\<lambda>i. c) (\<lambda>i. 0) a k p q [lx..hx - 1] (d, dI) = Some (d', dI)"
    using nlm_patch_row_const [of c a k p q "[lx..hx - 1]" d dI] by blast
  then show ?case by (simp add: Cons.IH)
qed

lemma nlm_wI_const:
  assumes "nlm_patch_area rect f x y qx qy \<noteq> 0"
  shows "nlm_wI (\<lambda>i. c) (\<lambda>i. 0) rect f a k w x y p qx qy q = Some 1"
proof -
  let ?L = "nlm_low_dPatch rect f x y qx qy" and ?H = "nlm_high_dPatch rect f x y qx qy"
  obtain d' where "nlm_patch_rows (\<lambda>i. c) (\<lambda>i. 0) a k p q w (fst ?L) (fst ?H)
         [snd ?L..snd ?H - 1] (add32 (fst ?L) (mul32 (snd ?L) w), 0) = Some (d', 0)"
    using nlm_patch_rows_const [of c a k p q w "fst ?L" "fst ?H" "[snd ?L..snd ?H - 1]"
        "add32 (fst ?L) (mul32 (snd ?L) w)" 0] by blast
  then show ?thesis using assms by (simp add: nlm_wI_def Let_def fast_expf_def)
qed

section \<open>The search window\<close>

lemma nlm_window_exact:
  assumes "0 \<le> r" "is_int32 (x - r)" "is_int32 (x + r + 1)" "is_int32 (y - r)" "is_int32 (y + r + 1)"
  shows "nlm_low rect x y r = (max (int4_x rect) (x - r), max (int4_y rect) (y - r))"
    and "nlm_high rect x y r = (min (int4_z rect) (x + r + 1), min (int4_w rect) (y + r + 1))"
  using assms by (simp_all add: nlm_low_def nlm_high_def sub32_def add32_def int32_id)

lemma nlm_window_in_rect:
  "{fst (nlm_low rect x y r)..<fst (nlm_high rect x y r)}
     \<times> {snd (nlm_low rect x y r)..<snd (nlm_high rect x y r)}
   \<subseteq> {int4_x rect..<int4_z rect} \<times> {int4_y rect..<int4_w rect}"
  by (auto simp: nlm_low_def nlm_high_def)

lemma nlm_window_member:
  assumes "qx \<in> {fst (nlm_low rect x y r)..<fst (nlm_high rect x y r)}"
    and "qy \<in> {snd (nlm_low rect x y r)..<snd (nlm_high rect x y r)}"
  shows "in_rect rect qx qy"
  using assms by (simp add: nlm_low_def nlm_high_def in_rect_def)

lemma double_sum_pos:
  fixes g :: "int \<Rightarrow> int \<Rightarrow> real"
  assumes "lx < hx" "ly < hy"
    and "\<forall>qy\<in>{ly..<hy}. \<forall>qx\<in>{lx..<hx}. 0 < g qx qy"
  shows "0 < (\<Sum>qy = ly..<hy. \<Sum>qx = lx..<hx. g qx qy)"
proof (rule sum_pos)
  show "finite {ly..<hy}" by simp
  show "{ly..<hy} \<noteq> {}" using assms(2) by simp
  fix qy assume "qy \<in> {ly..<hy}"
  then show "0 < (\<Sum>qx = lx..<hx. g qx qy)"
    using assms(1,3) by (intro sum_pos) simp_all
qed

lemma nlm_weights_defined:
  assumes v: "rect_valid rect" and p: "in_rect rect x y"
    and f: "is_int32 (- f)" "is_int32 (f + 1)"
    and d: "nlm_divisors_nonzero k V"
  shows "\<forall>qy\<in>{snd (nlm_low rect x y r)..<snd (nlm_high rect x y r)}.
         \<forall>qx\<in>{fst (nlm_low rect x y r)..<fst (nlm_high rect x y r)}.
           nlm_weight W V rect f a k x y qx qy = Some (the (nlm_weight W V rect f a k x y qx qy))
           \<and> 0 < the (nlm_weight W V rect f a k x y qx qy)
           \<and> the (nlm_weight W V rect f a k x y qx qy) \<le> 1"
proof (intro ballI)
  fix qy qx
  assume "qy \<in> {snd (nlm_low rect x y r)..<snd (nlm_high rect x y r)}"
    and "qx \<in> {fst (nlm_low rect x y r)..<fst (nlm_high rect x y r)}"
  then have q: "in_rect rect qx qy" by (rule nlm_window_member [rotated])
  obtain wI where "nlm_weight W V rect f a k x y qx qy = Some wI" "0 < wI" "wI \<le> 1"
    using nlm_wI_defined [OF v p q f d] unfolding nlm_weight_def by blast
  then show "nlm_weight W V rect f a k x y qx qy = Some (the (nlm_weight W V rect f a k x y qx qy))
           \<and> 0 < the (nlm_weight W V rect f a k x y qx qy)
           \<and> the (nlm_weight W V rect f a k x y qx qy) \<le> 1"
    by simp
qed

lemma nlm_filter_defined:
  fixes W N :: "int \<Rightarrow> real" and a :: real
  assumes v: "rect_valid rect" and p: "in_rect rect x y"
    and wx: "fst (nlm_low rect x y r) < fst (nlm_high rect x y r)"
    and wy: "snd (nlm_low rect x y r) < snd (nlm_high rect x y r)"
    and f: "is_int32 (- f)" "is_int32 (f + 1)"
    and d: "nlm_divisors_nonzero k V"
  defines "wt \<equiv> \<lambda>qx qy. the (nlm_weight W V rect f a k x y qx qy)"
  defines "S \<equiv> (\<Sum>qy = snd (nlm_low rect x y r)..<snd (nlm_high rect x y r).
                \<Sum>qx = fst (nlm_low rect x y r)..<fst (nlm_high rect x y r). wt qx qy)"
  defines "T \<equiv> (\<Sum>qy = snd (nlm_low rect x y r)..<snd (nlm_high rect x y r).
                \<Sum>qx = fst (nlm_low rect x y r)..<fst (nlm_high rect x y r).
                  wt qx qy * N (filter_idx rect qx qy))"
  shows "nlm_sums x y N W V rect r f a k = Some (T, S)" and "0 < S"
    and "kernel_filter_non_local_means x y N W V filteredImage rect r f a k
           = Some (filteredImage(filter_idx rect x y := T / S))"
proof -
  note w = nlm_weights_defined [OF v p f d, where r = r and W = W and a = a]
  have e: "\<forall>qy\<in>{snd (nlm_low rect x y r)..<snd (nlm_high rect x y r)}.
           \<forall>qx\<in>{fst (nlm_low rect x y r)..<fst (nlm_high rect x y r)}.
             nlm_weight W V rect f a k x y qx qy = Some (wt qx qy)"
    using w unfolding wt_def by blast
  show s: "nlm_sums x y N W V rect r f a k = Some (T, S)"
    unfolding T_def S_def by (rule nlm_sums_weights [OF e])
  have "\<forall>qy\<in>{snd (nlm_low rect x y r)..<snd (nlm_high rect x y r)}.
           \<forall>qx\<in>{fst (nlm_low rect x y r)..<fst (nlm_high rect x y r)}. 0 < wt qx qy"
    using w unfolding wt_def by blast
  then show pos: "0 < S" unfolding S_def by (rule double_sum_pos [OF wx wy])
  then have "S \<noteq> 0" by simp
  with s show "kernel_filter_non_local_means x y N W V filteredImage rect r f a k
           = Some (filteredImage(filter_idx rect x y := T / S))"
    by (rule nlm_kernel_value)
qed

text \<open>
  An instance at a corner: for the \<open>8 \<times> 8\<close> rect at the origin, target pixel \<open>(0, 0)\<close> and
  \<open>r = 3\<close>, the window is \<open>[0, 4) \<times> [0, 4)\<close> with 16 candidates, not the 49 of the
  full \<open>(2r + 1)\<^sup>2\<close> window.
\<close>

lemma nlm_corner_window:
  "nlm_low \<lparr>int4_x = 0, int4_y = 0, int4_z = 8, int4_w = 8\<rparr> 0 0 3 = (0, 0) \<and>
   nlm_high \<lparr>int4_x = 0, int4_y = 0, int4_z = 8, int4_w = 8\<rparr> 0 0 3 = (4, 4) \<and>
   card ({0..<4::int} \<times> {0..<4::int}) = 16"
  by (simp add: nlm_low_def nlm_high_def add32_def sub32_def int32_def)

lemma corner_rect_valid: "rect_valid \<lparr>int4_x = 0, int4_y = 0, int4_z = 8, int4_w = 8\<rparr>"
  by (simp add: rect_valid_def aligned_width_def align_up_def is_int32_def)

text \<open>
  Claim C4.  The search window of \<open>kernel_filter_non_local_means\<close> is
  \<open>[max(rect.x, x - r), min(rect.z, x + r + 1))\<close> per axis, it lies inside the rect, and
  \<open>sum_image\<close> and \<open>sum_weight\<close> are the sums over exactly the candidates of this clipped
  window, so no \<open>q\<close> outside the rect contributes.  The sums are defined when every
  weight of the window is defined; otherwise the result is \<open>None\<close>.
\<close>

theorem nlm_clipped_window_sums:
  "(let low = nlm_low rect x y r;
        high = nlm_high rect x y r;
        wt = nlm_weight weightImage variance rect f a k_2 x y
    in fst low = max (int4_x rect) (sub32 x r) \<and>
       snd low = max (int4_y rect) (sub32 y r) \<and>
       fst high = min (int4_z rect) (add32 (add32 x r) 1) \<and>
       snd high = min (int4_w rect) (add32 (add32 y r) 1) \<and>
       {fst low..<fst high} \<times> {snd low..<snd high}
         \<subseteq> {int4_x rect..<int4_z rect} \<times> {int4_y rect..<int4_w rect} \<and>
       nlm_sums x y noisyImage weightImage variance rect r f a k_2 =
         (if \<forall>qy\<in>{snd low..<snd high}. \<forall>qx\<in>{fst low..<fst high}. wt qx qy \<noteq> None
          then Some
            ((\<Sum>qy = snd low..<snd high. \<Sum>qx = fst low..<fst high.
                the (wt qx qy) * noisyImage (filter_idx rect qx qy)),
             (\<Sum>qy = snd low..<snd high. \<Sum>qx = fst low..<fst high. the (wt qx qy)))
          else None))"
  unfolding Let_def
  using nlm_window_in_rect [of rect x y r]
  by (simp only: nlm_sums_window [symmetric]) (simp add: nlm_low_def nlm_high_def)

theorem nlm_clipped_window_sums_witness:
  "nlm_low \<lparr>int4_x = 0, int4_y = 0, int4_z = 8, int4_w = 8\<rparr> 0 0 3 = (0, 0) \<and>
   nlm_high \<lparr>int4_x = 0, int4_y = 0, int4_z = 8, int4_w = 8\<rparr> 0 0 3 = (4, 4) \<and>
   nlm_sums 0 0 (\<lambda>i. 5) (\<lambda>i. 5) (\<lambda>i. 0)
       \<lparr>int4_x = 0, int4_y = 0, int4_z = 8, int4_w = 8\<rparr> 3 1 1 1 = Some (80, 16)"
proof -
  let ?R = "\<lparr>int4_x = 0, int4_y = 0, int4_z = 8, int4_w = 8\<rparr>"
  have p: "in_rect ?R 0 0" by (simp add: in_rect_def)
  have f: "is_int32 (- 1)" "is_int32 (1 + 1)" by (simp_all add: is_int32_def)
  have e: "\<forall>qy\<in>{snd (nlm_low ?R 0 0 3)..<snd (nlm_high ?R 0 0 3)}.
           \<forall>qx\<in>{fst (nlm_low ?R 0 0 3)..<fst (nlm_high ?R 0 0 3)}.
             nlm_weight (\<lambda>i. 5) (\<lambda>i. 0) ?R 1 1 1 0 0 qx qy = Some 1"
  proof (intro ballI)
    fix qy qx
    assume "qy \<in> {snd (nlm_low ?R 0 0 3)..<snd (nlm_high ?R 0 0 3)}"
      and "qx \<in> {fst (nlm_low ?R 0 0 3)..<fst (nlm_high ?R 0 0 3)}"
    then have q: "in_rect ?R qx qy" by (rule nlm_window_member [rotated])
    show "nlm_weight (\<lambda>i. 5) (\<lambda>i. 0) ?R 1 1 1 0 0 qx qy = Some 1"
      unfolding nlm_weight_def
      by (rule nlm_wI_const [OF nlm_patch_area_nonzero [OF corner_rect_valid p q f]])
  qed
  show ?thesis
    using nlm_clipped_window_sums [of ?R 0 0 3 "\<lambda>i. 5" "\<lambda>i. 0" 1 1 1 "\<lambda>i. 5"]
      nlm_sums_weights [OF e, where N = "\<lambda>i. 5"]
    by (simp add: Let_def nlm_corner_window)
qed

section \<open>Uniform images\<close>

lemma nlm_const_image:
  assumes v: "rect_valid rect" and p: "in_rect rect x y"
    and wx: "fst (nlm_low rect x y r) < fst (nlm_high rect x y r)"
    and wy: "snd (nlm_low rect x y r) < snd (nlm_high rect x y r)"
    and f: "is_int32 (- f)" "is_int32 (f + 1)"
  shows "kernel_filter_non_local_means x y (\<lambda>i. c) (\<lambda>i. c') (\<lambda>i. 0) filteredImage rect r f a k
           = Some (filteredImage(filter_idx rect x y := c))"
proof -
  define S where "S = (\<Sum>qy = snd (nlm_low rect x y r)..<snd (nlm_high rect x y r).
              \<Sum>qx = fst (nlm_low rect x y r)..<fst (nlm_high rect x y r). (1::real))"
  have pos: "0 < S"
    unfolding S_def by (rule double_sum_pos [OF wx wy]) simp
  have num: "(\<Sum>qy = snd (nlm_low rect x y r)..<snd (nlm_high rect x y r).
              \<Sum>qx = fst (nlm_low rect x y r)..<fst (nlm_high rect x y r). (1::real) * c) = S * c"
    unfolding S_def by (simp only: sum_distrib_right)
  have e: "\<forall>qy\<in>{snd (nlm_low rect x y r)..<snd (nlm_high rect x y r)}.
           \<forall>qx\<in>{fst (nlm_low rect x y r)..<fst (nlm_high rect x y r)}.
             nlm_weight (\<lambda>i. c') (\<lambda>i. 0) rect f a k x y qx qy = Some 1"
  proof (intro ballI)
    fix qy qx
    assume "qy \<in> {snd (nlm_low rect x y r)..<snd (nlm_high rect x y r)}"
      and "qx \<in> {fst (nlm_low rect x y r)..<fst (nlm_high rect x y r)}"
    then have q: "in_rect rect qx qy" by (rule nlm_window_member [rotated])
    show "nlm_weight (\<lambda>i. c') (\<lambda>i. 0) rect f a k x y qx qy = Some 1"
      unfolding nlm_weight_def
      by (rule nlm_wI_const [OF nlm_patch_area_nonzero [OF v p q f]])
  qed
  have "nlm_sums x y (\<lambda>i. c) (\<lambda>i. c') (\<lambda>i. 0) rect r f a k = Some (S * c, S)"
    using nlm_sums_weights [OF e, where N = "\<lambda>i. c"] unfolding num S_def .
  moreover have "S \<noteq> 0" using pos by simp
  ultimately have "kernel_filter_non_local_means x y (\<lambda>i. c) (\<lambda>i. c') (\<lambda>i. 0) filteredImage
      rect r f a k = Some (filteredImage(filter_idx rect x y := S * c / S))"
    by (rule nlm_kernel_value)
  then show ?thesis using pos by simp
qed

text \<open>
  Claim C1.  With \<open>rect = (0, 0, 4, 4)\<close>, \<open>noisyImage\<close> and \<open>weightImage\<close> constant 5,
  \<open>variance\<close> constant 0 and \<open>r = f = a = k_2 = 1\<close>, the call for any pixel of the rect
  divides by no zero, and the value written to \<open>filteredImage\<close> is exactly 5; no other
  entry of \<open>filteredImage\<close> changes.
\<close>

theorem nlm_uniform_scenario:
  "\<forall>x\<in>{0..<4}. \<forall>y\<in>{0..<4}.
     kernel_filter_non_local_means x y (\<lambda>i. 5) (\<lambda>i. 5) (\<lambda>i. 0) filteredImage
       \<lparr>int4_x = 0, int4_y = 0, int4_z = 4, int4_w = 4\<rparr> 1 1 1 1
     = Some (filteredImage(filter_idx \<lparr>int4_x = 0, int4_y = 0, int4_z = 4, int4_w = 4\<rparr> x y := 5))"
proof (intro ballI)
  fix x y :: int
  assume "x \<in> {0..<4}" "y \<in> {0..<4}"
  then have b: "0 \<le> x" "x < 4" "0 \<le> y" "y < 4" by simp_all
  let ?R = "\<lparr>int4_x = 0, int4_y = 0, int4_z = 4, int4_w = 4\<rparr>"
  have p: "in_rect ?R x y" using b by (simp add: in_rect_def)
  have o: "is_int32 (x - 1)" "is_int32 (x + 1 + 1)" "is_int32 (y - 1)" "is_int32 (y + 1 + 1)"
    using b by (simp_all add: is_int32_def)
  have f: "is_int32 (- 1)" "is_int32 (1 + 1)" by (simp_all add: is_int32_def)
  note e = nlm_window_exact [OF _ o, of ?R, simplified]
  have "fst (nlm_low ?R x y 1) < fst (nlm_high ?R x y 1)"
       "snd (nlm_low ?R x y 1) < snd (nlm_high ?R x y 1)"
    using b by (simp_all add: e)
  then show "kernel_filter_non_local_means x y (\<lambda>i. 5) (\<lambda>i. 5) (\<lambda>i. 0) filteredImage ?R 1 1 1 1
       = Some (filteredImage(filter_idx ?R x y := 5))"
    by (rule nlm_const_image [OF example_rect_valid p _ _ f])
qed

theorem nlm_uniform_scenario_witness:
  "kernel_filter_non_local_means 1 2 (\<lambda>i. 5) (\<lambda>i. 5) (\<lambda>i. 0) (\<lambda>i. 0)
       \<lparr>int4_x = 0, int4_y = 0, int4_z = 4, int4_w = 4\<rparr> 1 1 1 1 = Some ((\<lambda>i. 0)(9 := 5))"
proof -
  have "filter_idx \<lparr>int4_x = 0, int4_y = 0, int4_z = 4, int4_w = 4\<rparr> 1 2 = 9"
    by (simp add: filter_idx_def filter_buffer_w_def align_up_def add32_def mul32_def sub32_def
        int32_def)
  moreover have "(1::int) \<in> {0..<4}" "(2::int) \<in> {0..<4}" by simp_all
  ultimately show ?thesis
    using nlm_uniform_scenario [rule_format, of 1 2 "\<lambda>i. 0"] by simp
qed

section \<open>The weight of the target pixel itself\<close>

lemma nlm_self_term:
  fixes a k v :: real
  assumes "0 \<le> a" "0 \<le> k" "0 \<le> v"
  shows "(0 * 0 - a * (v + min v v)) * (1 / (1 / 10000000 + k * (v + v))) \<le> 0"
proof -
  have "0 * 0 - a * (v + min v v) \<le> 0" using assms by simp
  moreover have "0 \<le> 1 / (1 / 10000000 + k * (v + v))" using assms by simp
  ultimately show ?thesis by (rule mult_nonpos_nonneg)
qed

lemma nlm_patch_row_self:
  assumes "0 \<le> a" "0 \<le> k" "\<forall>i. 0 \<le> V i"
  shows "\<exists>d' dI'. nlm_patch_row W V a k p p dxs (d, dI) = Some (d', dI') \<and> dI' \<le> dI"
proof (induction dxs arbitrary: d dI)
  case Nil
  show ?case by simp
next
  case (Cons dx dxs)
  let ?t = "(0 * 0 - a * (V (add32 p d) + min (V (add32 p d)) (V (add32 p d))))
              * (1 / (1 / 10000000 + k * (V (add32 p d) + V (add32 p d))))"
  have t: "?t \<le> 0" using assms by (intro nlm_self_term) simp_all
  have "0 \<le> k * (V (add32 p d) + V (add32 p d))" using assms by simp
  then have z: "1 / 10000000 + k * (V (add32 p d) + V (add32 p d)) \<noteq> 0" by linarith
  have s: "nlm_patch_row W V a k p p (dx # dxs) (d, dI)
      = nlm_patch_row W V a k p p dxs (add32 d 1, dI + ?t)"
    using z by (simp add: Let_def)
  obtain d' dI' where "nlm_patch_row W V a k p p dxs (add32 d 1, dI + ?t) = Some (d', dI')"
      "dI' \<le> dI + ?t"
    using Cons.IH [of "add32 d 1" "dI + ?t"] by blast
  then show ?case unfolding s using t by auto
qed

lemma nlm_patch_rows_self:
  assumes "0 \<le> a" "0 \<le> k" "\<forall>i. 0 \<le> V i"
  shows "\<exists>d' dI'. nlm_patch_rows W V a k p p w lx hx dys (d, dI) = Some (d', dI') \<and> dI' \<le> dI"
proof (induction dys arbitrary: d dI)
  case Nil
  show ?case by simp
next
  case (Cons dy dys)
  obtain d' dI' where r: "nlm_patch_row W V a k p p [lx..hx - 1] (d, dI) = Some (d', dI')"
      and le: "dI' \<le> dI"
    using nlm_patch_row_self [OF assms, where W = W and p = p and dxs = "[lx..hx - 1]"
        and d = d and dI = dI] by blast
  have s: "nlm_patch_rows W V a k p p w lx hx (dy # dys) (d, dI)
      = nlm_patch_rows W V a k p p w lx hx dys (add32 d' (sub32 w (sub32 hx lx)), dI')"
    by (simp add: r)
  obtain d'' dI'' where "nlm_patch_rows W V a k p p w lx hx dys
         (add32 d' (sub32 w (sub32 hx lx)), dI') = Some (d'', dI'')" "dI'' \<le> dI'"
    using Cons.IH [of "add32 d' (sub32 w (sub32 hx lx))" dI'] by blast
  then show ?case unfolding s using le by auto
qed

lemma nlm_wI_self:
  assumes v: "rect_valid rect" and p: "in_rect rect x y"
    and a: "0 \<le> a" and k: "0 \<le> k" and var: "\<forall>i. 0 \<le> V i"
    and f: "is_int32 (- f)" "is_int32 (f + 1)"
  shows "nlm_wI W V rect f a k w x y p_idx x y p_idx = Some 1"
proof -
  let ?L = "nlm_low_dPatch rect f x y x y" and ?H = "nlm_high_dPatch rect f x y x y"
  let ?A = "nlm_patch_area rect f x y x y"
  obtain d' dI where rows: "nlm_patch_rows W V a k p_idx p_idx w (fst ?L) (fst ?H)
         [snd ?L..snd ?H - 1] (add32 (fst ?L) (mul32 (snd ?L) w), 0) = Some (d', dI)"
      and neg: "dI \<le> 0"
    using nlm_patch_rows_self [OF a k var, where W = W and p = p_idx and w = w
        and lx = "fst ?L" and hx = "fst ?H" and dys = "[snd ?L..snd ?H - 1]"
        and d = "add32 (fst ?L) (mul32 (snd ?L) w)" and dI = 0] by blast
  have nz: "?A \<noteq> 0" by (rule nlm_patch_area_nonzero [OF v p p f])
  have w: "nlm_wI W V rect f a k w x y p_idx x y p_idx
      = Some (fast_expf (- max 0 (dI * (1 / real_of_int ?A))))"
    using rows nz by (simp add: nlm_wI_def Let_def)
  have "dI * (1 / real_of_int ?A) \<le> 0"
  proof (cases "0 \<le> f")
    case True
    have "0 < ?A" by (rule nlm_patch_area_positive [OF v p p True f(2)])
    then have "0 \<le> 1 / real_of_int ?A" by simp
    with neg show ?thesis by (rule mult_nonpos_nonneg)
  next
    case False
    then have n: "f < 0" by simp
    note e = nlm_patch_area_negative_f(1,2) [OF v p p n f(1)]
    have "[snd ?L..snd ?H - 1] = []" using n unfolding e by simp
    then have "dI = 0" using rows by simp
    then show ?thesis by simp
  qed
  then have "max 0 (dI * (1 / real_of_int ?A)) = 0" by simp
  then show ?thesis unfolding w by (simp add: fast_expf_def)
qed

text \<open>
  Claim C2, amended.  For a target pixel inside a valid rect, a patch size \<open>f\<close> for which
  \<open>- f\<close> and \<open>f + 1\<close> are representable as 32-bit integers, every weight image, and
  \<open>a \<ge> 0\<close>, \<open>k_2 \<ge> 0\<close> and a \<open>variance\<close> buffer without negative entries, the weight
  \<open>wI\<close> of the candidate \<open>q = p\<close> is computed without a division by zero and is exactly 1:
  each term of \<open>dI\<close> is \<open>- a * 2 * variance / (1e-7 + k_2 * 2 * variance) \<le> 0\<close>, the patch
  area is not zero, and the clamp makes the exponent 0.
\<close>

theorem nlm_self_weight:
  assumes v: "rect_valid rect" and p: "in_rect rect x y"
    and a: "0 \<le> a" and k: "0 \<le> k_2" and var: "\<forall>i. 0 \<le> variance i"
    and f: "is_int32 (- f)" "is_int32 (f + 1)"
  shows "nlm_wI weightImage variance rect f a k_2 w x y p_idx x y p_idx = Some 1"
  using assms by (rule nlm_wI_self)

theorem nlm_self_weight_witness:
  "nlm_wI real_of_int (\<lambda>i. 2) \<lparr>int4_x = 0, int4_y = 0, int4_z = 4, int4_w = 4\<rparr> 1 1 1
     (filter_buffer_w \<lparr>int4_x = 0, int4_y = 0, int4_z = 4, int4_w = 4\<rparr>) 1 1 5 1 1 5 = Some 1"
proof -
  let ?R = "\<lparr>int4_x = 0, int4_y = 0, int4_z = 4, int4_w = 4\<rparr>"
  have p: "in_rect ?R 1 1" by (simp add: in_rect_def)
  have a: "(0::real) \<le> 1" and var: "\<forall>i::int. (0::real) \<le> 2" by simp_all
  have f: "is_int32 (- 1)" "is_int32 (1 + 1)" by (simp_all add: is_int32_def)
  show ?thesis
    by (rule nlm_self_weight [OF example_rect_valid p a a var f])
qed

text \<open>
  The claim as stated, for every \<open>a\<close>, \<open>k_2\<close> and \<open>variance\<close>, fails: the bias term does not
  cancel for \<open>q = p\<close>, and with \<open>a = -1\<close>, \<open>k_2 = 1\<close>, \<open>variance = 1\<close> and \<open>f = 0\<close> the
  distance is \<open>dI = 2 / (1e-7 + 2) > 0\<close> and the weight is \<open>exp (- dI) < 1\<close>.
\<close>

theorem nlm_self_weight_negative_a:
  "in_rect \<lparr>int4_x = 0, int4_y = 0, int4_z = 1, int4_w = 1\<rparr> 0 0 \<and>
   nlm_wI (\<lambda>i. 0) (\<lambda>i. 1) \<lparr>int4_x = 0, int4_y = 0, int4_z = 1, int4_w = 1\<rparr> 0 (- 1) 1
     (filter_buffer_w \<lparr>int4_x = 0, int4_y = 0, int4_z = 1, int4_w = 1\<rparr>) 0 0
     (filter_idx \<lparr>int4_x = 0, int4_y = 0, int4_z = 1, int4_w = 1\<rparr> 0 0) 0 0
     (filter_idx \<lparr>int4_x = 0, int4_y = 0, int4_z = 1, int4_w = 1\<rparr> 0 0)
     = Some (exp (- (20000000 / 20000001))) \<and>
   exp (- (20000000 / 20000001)) < (1::real)"
  by (simp add: in_rect_def nlm_wI_def nlm_low_dPatch_def nlm_high_dPatch_def nlm_patch_area_def
      Let_def fast_expf_def filter_idx_def filter_buffer_w_def
      align_up_def add32_def sub32_def mul32_def neg32_def int32_def upto_rec1)

section \<open>The target pixel in the search window\<close>

lemma double_sum_member_le:
  fixes g :: "int \<Rightarrow> int \<Rightarrow> real"
  assumes x: "x \<in> {lx..<hx}" and y: "y \<in> {ly..<hy}"
    and g: "\<forall>qy\<in>{ly..<hy}. \<forall>qx\<in>{lx..<hx}. 0 \<le> g qx qy"
  shows "g x y \<le> (\<Sum>qy = ly..<hy. \<Sum>qx = lx..<hx. g qx qy)"
proof -
  have "g x y \<le> (\<Sum>qx = lx..<hx. g qx y)"
    using x g y by (intro member_le_sum) simp_all
  also have "\<dots> \<le> (\<Sum>qy = ly..<hy. \<Sum>qx = lx..<hx. g qx qy)"
    using y g by (intro member_le_sum [where f = "\<lambda>qy. \<Sum>qx = lx..<hx. g qx qy"] sum_nonneg)
      simp_all
  finally show ?thesis .
qed

lemma nlm_sum_weight_ge_one:
  assumes v: "rect_valid rect" and p: "in_rect rect x y"
    and x: "x \<in> {lx..<hx}" and y: "y \<in> {ly..<hy}"
    and w: "\<forall>qy\<in>{ly..<hy}. \<forall>qx\<in>{lx..<hx}.
              0 < the (nlm_weight W V rect f a k x y qx qy)"
    and a: "0 \<le> a" and k: "0 \<le> k" and var: "\<forall>i. 0 \<le> V i"
    and f: "is_int32 (- f)" "is_int32 (f + 1)"
  shows "1 \<le> (\<Sum>qy = ly..<hy. \<Sum>qx = lx..<hx. the (nlm_weight W V rect f a k x y qx qy))"
proof -
  have "nlm_weight W V rect f a k x y x y = Some 1"
    unfolding nlm_weight_def by (rule nlm_wI_self [OF v p a k var f])
  then have s: "the (nlm_weight W V rect f a k x y x y) = 1" by simp
  have n: "\<forall>qy\<in>{ly..<hy}. \<forall>qx\<in>{lx..<hx}.
              0 \<le> the (nlm_weight W V rect f a k x y qx qy)"
    using w by (simp add: less_imp_le)
  show ?thesis
    using double_sum_member_le [OF x y n] unfolding s .
qed




section \<open>The output as a weighted mean\<close>

lemma double_sum_divide:
  fixes g :: "int \<Rightarrow> int \<Rightarrow> real"
  shows "(\<Sum>qy = ly..<hy. \<Sum>qx = lx..<hx. g qx qy / S)
       = (\<Sum>qy = ly..<hy. \<Sum>qx = lx..<hx. g qx qy) / S"
  by (simp add: sum_divide_distrib)

lemma double_sum_divide_times:
  fixes g n :: "int \<Rightarrow> int \<Rightarrow> real"
  shows "(\<Sum>qy = ly..<hy. \<Sum>qx = lx..<hx. g qx qy / S * n qx qy)
       = (\<Sum>qy = ly..<hy. \<Sum>qx = lx..<hx. g qx qy * n qx qy) / S"
  by (simp add: sum_divide_distrib)

text \<open>
  Claim C10, amended.  Under the hypotheses of claim C3 (a target pixel inside a valid rect,
  \<open>r \<ge> 0\<close> with representable window corners, \<open>- f\<close> and \<open>f + 1\<close> representable,
  \<open>a \<ge> 0\<close>, \<open>k_2 \<ge> 0\<close>, no negative variance) every weight of the clipped search window
  is defined and lies in \<open>(0, 1]\<close>, \<open>sum_weight \<ge> 1\<close>, the coefficients
  \<open>wI / sum_weight\<close> add up to 1, and the value written to \<open>filteredImage[p_idx]\<close> is
  \<open>sum_image / sum_weight\<close>, which in exact arithmetic is the sum of the \<open>noisyImage\<close>
  values of the window with these coefficients.
\<close>

theorem nlm_convex_combination:
  assumes v: "rect_valid rect" and p: "in_rect rect x y" and r: "0 \<le> r"
    and o: "is_int32 (x - r)" "is_int32 (x + r + 1)" "is_int32 (y - r)" "is_int32 (y + r + 1)"
    and f: "is_int32 (- f)" "is_int32 (f + 1)"
    and a: "0 \<le> a" and k: "0 \<le> k_2" and var: "\<forall>i. 0 \<le> variance i"
  shows "(let lx = max (int4_x rect) (x - r); hx = min (int4_z rect) (x + r + 1);
              ly = max (int4_y rect) (y - r); hy = min (int4_w rect) (y + r + 1);
              wt = (\<lambda>qx qy. the (nlm_weight weightImage variance rect f a k_2 x y qx qy));
              S = (\<Sum>qy = ly..<hy. \<Sum>qx = lx..<hx. wt qx qy)
          in (\<forall>qy\<in>{ly..<hy}. \<forall>qx\<in>{lx..<hx}.
                nlm_weight weightImage variance rect f a k_2 x y qx qy = Some (wt qx qy) \<and>
                0 < wt qx qy \<and> wt qx qy \<le> 1) \<and>
             1 \<le> S \<and>
             (\<Sum>qy = ly..<hy. \<Sum>qx = lx..<hx. wt qx qy / S) = 1 \<and>
             kernel_filter_non_local_means x y noisyImage weightImage variance filteredImage
                 rect r f a k_2
               = Some (filteredImage(filter_idx rect x y :=
                   (\<Sum>qy = ly..<hy. \<Sum>qx = lx..<hx.
                      wt qx qy * noisyImage (filter_idx rect qx qy)) / S)) \<and>
             (\<Sum>qy = ly..<hy. \<Sum>qx = lx..<hx.
                wt qx qy * noisyImage (filter_idx rect qx qy)) / S
               = (\<Sum>qy = ly..<hy. \<Sum>qx = lx..<hx.
                    wt qx qy / S * noisyImage (filter_idx rect qx qy)))"
proof -
  note d = nlm_divisors_nonneg [OF k var]
  note e = nlm_window_exact [OF r o, of rect]
  have wx: "fst (nlm_low rect x y r) < fst (nlm_high rect x y r)"
    and wy: "snd (nlm_low rect x y r) < snd (nlm_high rect x y r)"
    using p r by (simp_all add: e in_rect_def)
  have mx: "x \<in> {max (int4_x rect) (x - r)..<min (int4_z rect) (x + r + 1)}"
    and my: "y \<in> {max (int4_y rect) (y - r)..<min (int4_w rect) (y + r + 1)}"
    using p r by (simp_all add: in_rect_def)
  note w = nlm_weights_defined [OF v p f d, where r = r and W = weightImage and a = a,
      unfolded e fst_conv snd_conv]
  have pos: "\<forall>qy\<in>{max (int4_y rect) (y - r)..<min (int4_w rect) (y + r + 1)}.
             \<forall>qx\<in>{max (int4_x rect) (x - r)..<min (int4_z rect) (x + r + 1)}.
               0 < the (nlm_weight weightImage variance rect f a k_2 x y qx qy)"
    using w by blast
  note k2 = nlm_sum_weight_ge_one [OF v p mx my pos a k var f]
  note k3 = nlm_filter_defined(3) [OF v p wx wy f d, where N = noisyImage and W = weightImage
      and a = a and filteredImage = filteredImage, unfolded e fst_conv snd_conv]
  show ?thesis
    unfolding Let_def double_sum_divide double_sum_divide_times
    using w k2 k3 by simp
qed

theorem nlm_convex_combination_witness:
  "1 \<le> (\<Sum>qy = 0..<3. \<Sum>qx = 0..<3.
          the (nlm_weight real_of_int (\<lambda>i. 1)
                 \<lparr>int4_x = 0, int4_y = 0, int4_z = 4, int4_w = 4\<rparr> 1 1 1 1 1 qx qy)) \<and>
   kernel_filter_non_local_means 1 1 real_of_int real_of_int (\<lambda>i. 1) (\<lambda>i. 0)
       \<lparr>int4_x = 0, int4_y = 0, int4_z = 4, int4_w = 4\<rparr> 1 1 1 1
     = Some ((\<lambda>i. 0)(5 :=
         (\<Sum>qy = 0..<3. \<Sum>qx = 0..<3.
            the (nlm_weight real_of_int (\<lambda>i. 1)
                   \<lparr>int4_x = 0, int4_y = 0, int4_z = 4, int4_w = 4\<rparr> 1 1 1 1 1 qx qy)
              * real_of_int (filter_idx \<lparr>int4_x = 0, int4_y = 0, int4_z = 4, int4_w = 4\<rparr> qx qy))
         / (\<Sum>qy = 0..<3. \<Sum>qx = 0..<3.
              the (nlm_weight real_of_int (\<lambda>i. 1)
                     \<lparr>int4_x = 0, int4_y = 0, int4_z = 4, int4_w = 4\<rparr> 1 1 1 1 1 qx qy))))"
proof -
  let ?R = "\<lparr>int4_x = 0, int4_y = 0, int4_z = 4, int4_w = 4\<rparr>"
  have p: "in_rect ?R 1 1" by (simp add: in_rect_def)
  have o: "is_int32 (1 - 1)" "is_int32 (1 + 1 + 1)" by (simp_all add: is_int32_def)
  have f: "is_int32 (- 1)" "is_int32 (1 + 1)" by (simp_all add: is_int32_def)
  have a: "(0::real) \<le> 1" and var: "\<forall>i::int. (0::real) \<le> 1" by simp_all
  show ?thesis
    using nlm_convex_combination [OF example_rect_valid p _ o o f a a var,
        where noisyImage = real_of_int and weightImage = real_of_int
          and filteredImage = "\<lambda>i. 0"]
    by (simp add: Let_def example_idx)
qed

text \<open>
  The claim as stated, for every input with \<open>r \<ge> 0\<close>, \<open>a \<ge> 0\<close> and \<open>k_2 \<ge> 0\<close>, fails:
  for the pixel \<open>(3, 3)\<close> of the rect \<open>(0, 0, 4, 4)\<close> and \<open>r = 2147483647\<close> the upper
  window corner wraps around, the clipped window is empty, and the output \<open>0.0f / 0.0f\<close> is
  no combination of \<open>noisyImage\<close> values.
\<close>

theorem nlm_convex_window_overflow:
  "in_rect \<lparr>int4_x = 0, int4_y = 0, int4_z = 4, int4_w = 4\<rparr> 3 3 \<and>
   (0::int) \<le> 2147483647 \<and> (0::real) \<le> 1 \<and>
   nlm_low \<lparr>int4_x = 0, int4_y = 0, int4_z = 4, int4_w = 4\<rparr> 3 3 2147483647 = (0, 0) \<and>
   nlm_high \<lparr>int4_x = 0, int4_y = 0, int4_z = 4, int4_w = 4\<rparr> 3 3 2147483647
     = (- 2147483645, - 2147483645) \<and>
   kernel_filter_non_local_means 3 3 (\<lambda>i. 5) (\<lambda>i. 5) (\<lambda>i. 0) (\<lambda>i. 0)
       \<lparr>int4_x = 0, int4_y = 0, int4_z = 4, int4_w = 4\<rparr> 2147483647 1 1 1 = None"
  by (simp add: kernel_filter_non_local_means_def nlm_sums_window in_rect_def nlm_low_def
      nlm_high_def add32_def sub32_def int32_def)

text \<open>
  In exact arithmetic a quotient of this form lies between any two bounds of the values it
  averages.  The theorem for claim C10 does not state this of the kernel: its sums, products
  and the final quotient are rounded to \<open>float\<close>, and a rounded quotient can differ from
  the exact one in the last place, also on a constant image.
\<close>

lemma weighted_mean_between:
  fixes g v :: "int \<Rightarrow> int \<Rightarrow> real"
  assumes s: "0 < (\<Sum>qy = ly..<hy. \<Sum>qx = lx..<hx. g qx qy)"
    and g: "\<forall>qy\<in>{ly..<hy}. \<forall>qx\<in>{lx..<hx}. 0 \<le> g qx qy"
    and v: "\<forall>qy\<in>{ly..<hy}. \<forall>qx\<in>{lx..<hx}. lo \<le> v qx qy \<and> v qx qy \<le> hi"
  shows "lo \<le> (\<Sum>qy = ly..<hy. \<Sum>qx = lx..<hx. g qx qy * v qx qy)
                 / (\<Sum>qy = ly..<hy. \<Sum>qx = lx..<hx. g qx qy)"
    and "(\<Sum>qy = ly..<hy. \<Sum>qx = lx..<hx. g qx qy * v qx qy)
           / (\<Sum>qy = ly..<hy. \<Sum>qx = lx..<hx. g qx qy) \<le> hi"
proof -
  have "(\<Sum>qy = ly..<hy. \<Sum>qx = lx..<hx. g qx qy * lo)
      \<le> (\<Sum>qy = ly..<hy. \<Sum>qx = lx..<hx. g qx qy * v qx qy)"
    using g v by (intro sum_mono mult_left_mono) simp_all
  then have "lo * (\<Sum>qy = ly..<hy. \<Sum>qx = lx..<hx. g qx qy)
           \<le> (\<Sum>qy = ly..<hy. \<Sum>qx = lx..<hx. g qx qy * v qx qy)"
    by (simp add: sum_distrib_left sum_distrib_right mult.commute)
  then show "lo \<le> (\<Sum>qy = ly..<hy. \<Sum>qx = lx..<hx. g qx qy * v qx qy)
                 / (\<Sum>qy = ly..<hy. \<Sum>qx = lx..<hx. g qx qy)"
    using s by (simp add: pos_le_divide_eq)
  have "(\<Sum>qy = ly..<hy. \<Sum>qx = lx..<hx. g qx qy * v qx qy)
      \<le> (\<Sum>qy = ly..<hy. \<Sum>qx = lx..<hx. g qx qy * hi)"
    using g v by (intro sum_mono mult_left_mono) simp_all
  then have "(\<Sum>qy = ly..<hy. \<Sum>qx = lx..<hx. g qx qy * v qx qy)
           \<le> hi * (\<Sum>qy = ly..<hy. \<Sum>qx = lx..<hx. g qx qy)"
    by (simp add: sum_distrib_left sum_distrib_right mult.commute)
  then show "(\<Sum>qy = ly..<hy. \<Sum>qx = lx..<hx. g qx qy * v qx qy)
           / (\<Sum>qy = ly..<hy. \<Sum>qx = lx..<hx. g qx qy) \<le> hi"
    using s by (simp add: pos_divide_le_eq mult.commute)
qed

section \<open>Normalisation by the sample count\<close>

lemma feature_separate_center:
  assumes "feature_buffers_separate buffers mean variance"
  shows "fst (filter_center_buffer kg buffers tile_x tile_y offset stride x y) \<notin>
     {fst mean, fst variance}"
proof -
  from assms have "\<forall>t\<in>set [0..8]. fst (buffers t) \<notin> {fst mean, fst variance}"
    unfolding feature_buffers_separate_def list_all_iff by blast
  with filter_tile_range [of tile_x tile_y x y] show ?thesis
    unfolding fst_center_buffer by blast
qed

lemma get_feature_loads:
  fixes kg sample buffers m_offset v_offset x y tile_x tile_y offset stride mean variance rect h0
  defines "cb \<equiv> filter_center_buffer kg buffers tile_x tile_y offset stride x y"
    and "idx \<equiv> filter_idx rect x y"
    and "h' \<equiv> kernel_filter_get_feature kg sample buffers m_offset v_offset x y tile_x tile_y
                 offset stride mean variance rect h0"
  assumes sep: "feature_buffers_separate buffers mean variance"
  shows "load h' mean idx = load h0 cb m_offset / real_of_int sample"
    and "load h' variance idx
           = load h0 cb v_offset / real_of_int (mul32 sample (sub32 sample 1))"
proof -
  have d: "fst mean \<noteq> fst variance" using sep by (simp add: feature_buffers_separate_def)
  have c: "fst cb \<notin> {fst mean, fst variance}"
    unfolding cb_def using sep by (rule feature_separate_center)
  note defs = h'_def kernel_filter_get_feature_def Let_def load_store cb_def [symmetric]
    idx_def [symmetric]
  show "load h' mean idx = load h0 cb m_offset / real_of_int sample"
    using d c by (simp add: defs)
  show "load h' variance idx
           = load h0 cb v_offset / real_of_int (mul32 sample (sub32 sample 1))"
    using d c by (simp add: defs)
qed

text \<open>
  Claim C8, amended.  For every pixel and \<open>2 \<le> sample \<le> 46341\<close>,
  \<open>kernel_filter_get_feature\<close> leaves \<open>center_buffer[m_offset] / sample\<close> in \<open>mean[idx]\<close> and
  \<open>center_buffer[v_offset] / (sample * (sample - 1))\<close> in \<open>variance[idx]\<close>.  The product
  \<open>sample * (sample - 1)\<close> is computed in \<open>int\<close>; 46341 is the largest sample count for which
  it does not wrap around.
\<close>

theorem get_feature_normalised:
  assumes sep: "feature_buffers_separate buffers mean variance"
    and s: "2 \<le> sample" "sample \<le> 46341"
  shows "(let center_buffer = filter_center_buffer kg buffers tile_x tile_y offset stride x y;
              idx = filter_idx rect x y;
              h' = kernel_filter_get_feature kg sample buffers m_offset v_offset x y tile_x tile_y
                     offset stride mean variance rect h0
          in load h' mean idx = load h0 center_buffer m_offset / real_of_int sample \<and>
             load h' variance idx
               = load h0 center_buffer v_offset / (real_of_int sample * (real_of_int sample - 1)))"
  unfolding Let_def get_feature_loads [OF sep] sample_product [OF s]
  by simp

theorem get_feature_normalised_witness:
  "load (kernel_filter_get_feature \<lparr>pass_stride = 1, pass_denoising = 0\<rparr> 2
       (\<lambda>tile. (0, 0)) 3 7 1 1 (\<lambda>i. 0) (\<lambda>i. 0) (\<lambda>i. 0) (\<lambda>i. 0) (1, 0) (2, 0)
       \<lparr>int4_x = 0, int4_y = 0, int4_z = 4, int4_w = 4\<rparr>
       \<lparr>mem = \<lambda>b i. real_of_int i, written = []\<rparr>) (2, 0) 5 = 8 / 2"
proof -
  have s: "(2::int) \<le> 2" "(2::int) \<le> 46341" by simp_all
  show ?thesis
    using get_feature_normalised [OF example_feature_separate s,
        of "\<lparr>pass_stride = 1, pass_denoising = 0\<rparr>" "\<lambda>i. 0" "\<lambda>i. 0" "\<lambda>i. 0" "\<lambda>i. 0" 1 1
           "\<lparr>int4_x = 0, int4_y = 0, int4_z = 4, int4_w = 4\<rparr>" 3 7
           "\<lparr>mem = \<lambda>b i. real_of_int i, written = []\<rparr>"]
    by (simp add: Let_def example_idx example_center_buffer load_def)
qed

text \<open>
  The claim as stated, for every \<open>sample \<ge> 2\<close>, fails: at \<open>sample = 46342\<close> the \<open>int\<close>
  product \<open>sample * (sample - 1)\<close> wraps around to \<open>-2147432674\<close>, and the variance is
  divided by this negative number instead of by \<open>46342 * 46341\<close>.
\<close>

theorem get_feature_sample_overflow:
  "(2::int) \<le> 46342 \<and>
   load (kernel_filter_get_feature \<lparr>pass_stride = 1, pass_denoising = 0\<rparr> 46342
       (\<lambda>tile. (0, 0)) 3 7 1 1 (\<lambda>i. 0) (\<lambda>i. 0) (\<lambda>i. 0) (\<lambda>i. 0) (1, 0) (2, 0)
       \<lparr>int4_x = 0, int4_y = 0, int4_z = 4, int4_w = 4\<rparr>
       \<lparr>mem = \<lambda>b i. 1, written = []\<rparr>) (2, 0) 5 = 1 / (- 2147432674) \<and>
   load (kernel_filter_get_feature \<lparr>pass_stride = 1, pass_denoising = 0\<rparr> 46342
       (\<lambda>tile. (0, 0)) 3 7 1 1 (\<lambda>i. 0) (\<lambda>i. 0) (\<lambda>i. 0) (\<lambda>i. 0) (1, 0) (2, 0)
       \<lparr>int4_x = 0, int4_y = 0, int4_z = 4, int4_w = 4\<rparr>
       \<lparr>mem = \<lambda>b i. 1, written = []\<rparr>) (2, 0) 5 \<noteq> 1 / (46342 * (46342 - 1))"
proof -
  let ?h0 = "\<lparr>mem = \<lambda>b i. 1, written = []\<rparr> :: heap"
  have "load (kernel_filter_get_feature \<lparr>pass_stride = 1, pass_denoising = 0\<rparr> 46342
       (\<lambda>tile. (0, 0)) 3 7 1 1 (\<lambda>i. 0) (\<lambda>i. 0) (\<lambda>i. 0) (\<lambda>i. 0) (1, 0) (2, 0)
       \<lparr>int4_x = 0, int4_y = 0, int4_z = 4, int4_w = 4\<rparr> ?h0) (2, 0)
       (filter_idx \<lparr>int4_x = 0, int4_y = 0, int4_z = 4, int4_w = 4\<rparr> 1 1)
     = load ?h0 (filter_center_buffer \<lparr>pass_stride = 1, pass_denoising = 0\<rparr> (\<lambda>tile. (0, 0))
           (\<lambda>i. 0) (\<lambda>i. 0) (\<lambda>i. 0) (\<lambda>i. 0) 1 1) 7
         / real_of_int (mul32 46342 (sub32 46342 1))"
    by (rule get_feature_loads(2) [OF example_feature_separate])
  also have "\<dots> = 1 / (- 2147432674)"
    by (simp add: load_def mul32_def sub32_def int32_def)
  finally show ?thesis by (simp add: example_idx)
qed

text \<open>
  Claim C6, amended.  For a pixel of a valid rect and \<open>2 \<le> sample \<le> 46341\<close>, with
  \<open>varFac = 1 / (sample * (sample - 1))\<close>: \<open>sampleVariance[idx]\<close> is
  \<open>(center_buffer[16] + center_buffer[19]) * varFac\<close>, \<open>sampleVarianceV[idx]\<close> is
  \<open>0.5 * (center_buffer[16] - center_buffer[19])^2 * varFac\<close> and \<open>bufferVariance[idx]\<close> is
  \<open>0.5 * (unfiltered[idx] - unfiltered[idx + Bofs])^2\<close>, half the squared difference of the
  two unfiltered ratios.
\<close>

theorem divide_shadow_variances:
  assumes sep: "shadow_buffers_separate buffers unfiltered sampleVariance sampleVarianceV bufferVariance"
    and v: "rect_valid rect" and p: "in_rect rect x y"
    and s: "2 \<le> sample" "sample \<le> 46341"
  shows "(let center_buffer = filter_center_buffer kg buffers tile_x tile_y offset stride x y;
              idx = filter_idx rect x y;
              Bofs = (int4_w rect - int4_y rect) * align_up (int4_z rect - int4_x rect) 4;
              varFac = 1 / (real_of_int sample * (real_of_int sample - 1));
              h' = kernel_filter_divide_shadow kg sample buffers x y tile_x tile_y offset stride
                     unfiltered sampleVariance sampleVarianceV bufferVariance rect h0
          in load h' sampleVariance idx
               = (load h0 center_buffer 16 + load h0 center_buffer 19) * varFac \<and>
             load h' sampleVarianceV idx
               = 0.5 * (load h0 center_buffer 16 - load h0 center_buffer 19)\<^sup>2 * varFac \<and>
             load h' bufferVariance idx
               = 0.5 * (load h' unfiltered idx - load h' unfiltered (idx + Bofs))\<^sup>2 \<and>
             load h' bufferVariance idx
               = 0.5 * (load h0 center_buffer 15 / max (load h0 center_buffer 14) (1 / 10000000)
                        - load h0 center_buffer 18 / max (load h0 center_buffer 17) (1 / 10000000))\<^sup>2)"
proof -
  note l = divide_shadow_loads [OF sep, where kg = kg and sample = sample and x = x and y = y
      and tile_x = tile_x and tile_y = tile_y and offset = offset and stride = stride
      and rect = rect]
  note A = l(2) [OF idx_Bofs_distinct [OF v p]]
  show ?thesis
    unfolding Let_def l(3,4) sample_product [OF s] add_idx_Bofs_valid [OF v p, symmetric]
    using l(5) by (simp add: power2_eq_square l(1) A)
qed

theorem divide_shadow_variances_witness:
  "load (kernel_filter_divide_shadow \<lparr>pass_stride = 1, pass_denoising = 0\<rparr> 4
       (\<lambda>tile. (0, 0)) 1 1 (\<lambda>i. 0) (\<lambda>i. 0) (\<lambda>i. 0) (\<lambda>i. 0) (1, 0) (2, 0) (3, 0) (4, 0)
       \<lparr>int4_x = 0, int4_y = 0, int4_z = 4, int4_w = 4\<rparr>
       \<lparr>mem = \<lambda>b i. real_of_int (i - 15), written = []\<rparr>) (2, 0) 5 = 7 / 12 \<and>
   load (kernel_filter_divide_shadow \<lparr>pass_stride = 1, pass_denoising = 0\<rparr> 4
       (\<lambda>tile. (0, 0)) 1 1 (\<lambda>i. 0) (\<lambda>i. 0) (\<lambda>i. 0) (\<lambda>i. 0) (1, 0) (2, 0) (3, 0) (4, 0)
       \<lparr>int4_x = 0, int4_y = 0, int4_z = 4, int4_w = 4\<rparr>
       \<lparr>mem = \<lambda>b i. real_of_int (i - 15), written = []\<rparr>) (3, 0) 5 = 3 / 8"
proof -
  have s: "(2::int) \<le> 4" "(4::int) \<le> 46341" by simp_all
  show ?thesis
    using divide_shadow_variances [OF example_shadow_separate example_rect_valid example_in_rect s,
        of "\<lparr>pass_stride = 1, pass_denoising = 0\<rparr>" "\<lambda>i. 0" "\<lambda>i. 0" "\<lambda>i. 0" "\<lambda>i. 0"
           "\<lparr>mem = \<lambda>b i. real_of_int (i - 15), written = []\<rparr>"]
    by (simp add: Let_def example_idx example_center_buffer load_def power2_eq_square)
qed

text \<open>
  The claim as stated, for every \<open>sample \<ge> 2\<close>, fails: at \<open>sample = 46342\<close> the \<open>int\<close>
  product in \<open>varFac\<close> wraps around to \<open>-2147432674\<close>, so \<open>varFac\<close> is negative and
  differs from \<open>1 / (46342 * 46341)\<close>.
\<close>

theorem divide_shadow_sample_overflow:
  "(2::int) \<le> 46342 \<and>
   load (kernel_filter_divide_shadow \<lparr>pass_stride = 1, pass_denoising = 0\<rparr> 46342
       (\<lambda>tile. (0, 0)) 1 1 (\<lambda>i. 0) (\<lambda>i. 0) (\<lambda>i. 0) (\<lambda>i. 0) (1, 0) (2, 0) (3, 0) (4, 0)
       \<lparr>int4_x = 0, int4_y = 0, int4_z = 4, int4_w = 4\<rparr>
       \<lparr>mem = \<lambda>b i. 1, written = []\<rparr>) (2, 0) 5 = (1 + 1) * (1 / (- 2147432674)) \<and>
   load (kernel_filter_divide_shadow \<lparr>pass_stride = 1, pass_denoising = 0\<rparr> 46342
       (\<lambda>tile. (0, 0)) 1 1 (\<lambda>i. 0) (\<lambda>i. 0) (\<lambda>i. 0) (\<lambda>i. 0) (1, 0) (2, 0) (3, 0) (4, 0)
       \<lparr>int4_x = 0, int4_y = 0, int4_z = 4, int4_w = 4\<rparr>
       \<lparr>mem = \<lambda>b i. 1, written = []\<rparr>) (2, 0) 5 \<noteq> (1 + 1) * (1 / (46342 * (46342 - 1)))"
proof -
  let ?h0 = "\<lparr>mem = \<lambda>b i. 1, written = []\<rparr> :: heap"
  let ?cb = "filter_center_buffer \<lparr>pass_stride = 1, pass_denoising = 0\<rparr> (\<lambda>tile. (0, 0))
           (\<lambda>i. 0) (\<lambda>i. 0) (\<lambda>i. 0) (\<lambda>i. 0) 1 1"
  have "load (kernel_filter_divide_shadow \<lparr>pass_stride = 1, pass_denoising = 0\<rparr> 46342
       (\<lambda>tile. (0, 0)) 1 1 (\<lambda>i. 0) (\<lambda>i. 0) (\<lambda>i. 0) (\<lambda>i. 0) (1, 0) (2, 0) (3, 0) (4, 0)
       \<lparr>int4_x = 0, int4_y = 0, int4_z = 4, int4_w = 4\<rparr> ?h0) (2, 0)
       (filter_idx \<lparr>int4_x = 0, int4_y = 0, int4_z = 4, int4_w = 4\<rparr> 1 1)
     = (load ?h0 ?cb 16 + load ?h0 ?cb 19) * (1 / real_of_int (mul32 46342 (sub32 46342 1)))"
    by (rule divide_shadow_loads(3) [OF example_shadow_separate])
  also have "\<dots> = (1 + 1) * (1 / (- 2147432674))"
    by (simp add: load_def mul32_def sub32_def int32_def)
  finally show ?thesis by (simp add: example_idx)
qed

section \<open>Writes of the shadow division\<close>

lemma divide_shadow_written:
  "map fst (written (kernel_filter_divide_shadow kg sample buffers x y tile_x tile_y offset stride
              unfiltered sampleVariance sampleVarianceV bufferVariance rect h0))
     = map fst (written h0) @
       [ptr_add unfiltered (filter_idx rect x y),
        ptr_add unfiltered (add32 (filter_idx rect x y) (shadow_Bofs rect)),
        ptr_add sampleVariance (filter_idx rect x y),
        ptr_add sampleVarianceV (filter_idx rect x y),
        ptr_add bufferVariance (filter_idx rect x y)]"
  by (simp add: kernel_filter_divide_shadow_def Let_def written_store)

lemma divide_shadow_mem:
  assumes "(b, i) \<notin> set
       [ptr_add unfiltered (filter_idx rect x y),
        ptr_add unfiltered (add32 (filter_idx rect x y) (shadow_Bofs rect)),
        ptr_add sampleVariance (filter_idx rect x y),
        ptr_add sampleVarianceV (filter_idx rect x y),
        ptr_add bufferVariance (filter_idx rect x y)]"
  shows "mem (kernel_filter_divide_shadow kg sample buffers x y tile_x tile_y offset stride
              unfiltered sampleVariance sampleVarianceV bufferVariance rect h0) b i = mem h0 b i"
  using assms
  by (simp add: kernel_filter_divide_shadow_def Let_def mem_store ptr_add_def)

lemma divide_shadow_mem_block:
  assumes "b \<notin> {fst unfiltered, fst sampleVariance, fst sampleVarianceV, fst bufferVariance}"
  shows "mem (kernel_filter_divide_shadow kg sample buffers x y tile_x tile_y offset stride
              unfiltered sampleVariance sampleVarianceV bufferVariance rect h0) b = mem h0 b"
  using assms
  by (simp add: kernel_filter_divide_shadow_def Let_def mem_store)

text \<open>
  Claim C9, amended.  One call of \<open>kernel_filter_divide_shadow\<close> for a pixel of a valid rect
  writes exactly five locations, all distinct: \<open>unfiltered[idx]\<close>, \<open>unfiltered[idx + Bofs]\<close>,
  \<open>sampleVariance[idx]\<close>, \<open>sampleVarianceV[idx]\<close> and \<open>bufferVariance[idx]\<close>.  Every other
  memory location keeps its value; in particular the nine render buffers are unchanged.
  The arrays \<open>tile_x\<close>, \<open>tile_y\<close>, \<open>offset\<close>, \<open>stride\<close> and the rect are arguments that
  the kernel has no way to change.
\<close>

theorem divide_shadow_frame:
  assumes sep: "shadow_buffers_separate buffers unfiltered sampleVariance sampleVarianceV bufferVariance"
    and v: "rect_valid rect" and p: "in_rect rect x y"
  shows "(let idx = filter_idx rect x y;
              Bofs = (int4_w rect - int4_y rect) * align_up (int4_z rect - int4_x rect) 4;
              locs = [ptr_add unfiltered idx, ptr_add unfiltered (idx + Bofs),
                      ptr_add sampleVariance idx, ptr_add sampleVarianceV idx,
                      ptr_add bufferVariance idx];
              h' = kernel_filter_divide_shadow kg sample buffers x y tile_x tile_y offset stride
                     unfiltered sampleVariance sampleVarianceV bufferVariance rect h0
          in map fst (written h') = map fst (written h0) @ locs \<and>
             distinct locs \<and> length locs = 5 \<and>
             (\<forall>b i. (b, i) \<notin> set locs \<longrightarrow> mem h' b i = mem h0 b i) \<and>
             (\<forall>tile\<in>{0..8}. mem h' (fst (buffers tile)) = mem h0 (fst (buffers tile))))"
proof -
  let ?idx = "filter_idx rect x y"
  let ?i2 = "?idx + (int4_w rect - int4_y rect) * align_up (int4_z rect - int4_x rect) 4"
  let ?locs = "[ptr_add unfiltered ?idx, ptr_add unfiltered ?i2,
                      ptr_add sampleVariance ?idx, ptr_add sampleVarianceV ?idx,
                      ptr_add bufferVariance ?idx]"
  let ?h' = "kernel_filter_divide_shadow kg sample buffers x y tile_x tile_y offset stride
                     unfiltered sampleVariance sampleVarianceV bufferVariance rect h0"
  note e = add_idx_Bofs_valid [OF v p]
  have ne: "?i2 \<noteq> ?idx" using idx_Bofs_distinct [OF v p] unfolding e .
  have d: "distinct [fst unfiltered, fst sampleVariance, fst sampleVarianceV, fst bufferVariance]"
    using sep by (simp add: shadow_buffers_separate_def)
  have W: "map fst (written ?h') = map fst (written h0) @ ?locs"
    using divide_shadow_written [of kg sample buffers x y tile_x tile_y offset stride
        unfiltered sampleVariance sampleVarianceV bufferVariance rect h0]
    unfolding e .
  have D: "distinct ?locs" using d ne by (auto simp: ptr_add_def)
  have F: "\<forall>b i. (b, i) \<notin> set ?locs \<longrightarrow> mem ?h' b i = mem h0 b i"
    using divide_shadow_mem [of _ _ unfiltered rect x y sampleVariance sampleVarianceV
        bufferVariance kg sample buffers tile_x tile_y offset stride h0]
    unfolding e by blast
  have T: "\<forall>tile\<in>{0..8}. mem ?h' (fst (buffers tile)) = mem h0 (fst (buffers tile))"
  proof
    fix tile :: int assume "tile \<in> {0..8}"
    then have "tile \<in> set [0..8]" by simp
    then have "fst (buffers tile) \<notin>
        {fst unfiltered, fst sampleVariance, fst sampleVarianceV, fst bufferVariance}"
      using sep unfolding shadow_buffers_separate_def list_all_iff by blast
    then show "mem ?h' (fst (buffers tile)) = mem h0 (fst (buffers tile))"
      by (rule divide_shadow_mem_block)
  qed
  show ?thesis unfolding Let_def using W D F T by simp
qed

theorem divide_shadow_frame_witness:
  "map fst (written (kernel_filter_divide_shadow \<lparr>pass_stride = 1, pass_denoising = 0\<rparr> 4
       (\<lambda>tile. (0, 0)) 1 1 (\<lambda>i. 0) (\<lambda>i. 0) (\<lambda>i. 0) (\<lambda>i. 0) (1, 0) (2, 0) (3, 0) (4, 0)
       \<lparr>int4_x = 0, int4_y = 0, int4_z = 4, int4_w = 4\<rparr>
       \<lparr>mem = \<lambda>b i. real_of_int (i - 15), written = []\<rparr>))
     = [(1, 5), (1, 21), (2, 5), (3, 5), (4, 5)] \<and>
   mem (kernel_filter_divide_shadow \<lparr>pass_stride = 1, pass_denoising = 0\<rparr> 4
       (\<lambda>tile. (0, 0)) 1 1 (\<lambda>i. 0) (\<lambda>i. 0) (\<lambda>i. 0) (\<lambda>i. 0) (1, 0) (2, 0) (3, 0) (4, 0)
       \<lparr>int4_x = 0, int4_y = 0, int4_z = 4, int4_w = 4\<rparr>
       \<lparr>mem = \<lambda>b i. real_of_int (i - 15), written = []\<rparr>) 0
     = (\<lambda>i. real_of_int (i - 15))"
proof -
  note f = divide_shadow_frame [OF example_shadow_separate example_rect_valid example_in_rect,
        of "\<lparr>pass_stride = 1, pass_denoising = 0\<rparr>" 4 "\<lambda>i. 0" "\<lambda>i. 0" "\<lambda>i. 0" "\<lambda>i. 0"
           "\<lparr>mem = \<lambda>b i. real_of_int (i - 15), written = []\<rparr>", unfolded Let_def]
  have t: "(0::int) \<in> {0..8}" by simp
  from f have "map fst (written (kernel_filter_divide_shadow \<lparr>pass_stride = 1, pass_denoising = 0\<rparr> 4
       (\<lambda>tile. (0, 0)) 1 1 (\<lambda>i. 0) (\<lambda>i. 0) (\<lambda>i. 0) (\<lambda>i. 0) (1, 0) (2, 0) (3, 0) (4, 0)
       \<lparr>int4_x = 0, int4_y = 0, int4_z = 4, int4_w = 4\<rparr>
       \<lparr>mem = \<lambda>b i. real_of_int (i - 15), written = []\<rparr>))
     = [(1, 5), (1, 21), (2, 5), (3, 5), (4, 5)]"
    by (simp add: example_idx example_align ptr_add_def)
  moreover from f have "\<forall>tile\<in>{0..8::int}.
     mem (kernel_filter_divide_shadow \<lparr>pass_stride = 1, pass_denoising = 0\<rparr> 4
       (\<lambda>tile. (0, 0)) 1 1 (\<lambda>i. 0) (\<lambda>i. 0) (\<lambda>i. 0) (\<lambda>i. 0) (1, 0) (2, 0) (3, 0) (4, 0)
       \<lparr>int4_x = 0, int4_y = 0, int4_z = 4, int4_w = 4\<rparr>
       \<lparr>mem = \<lambda>b i. real_of_int (i - 15), written = []\<rparr>) (fst (0::nat, 0::int))
     = mem \<lparr>mem = \<lambda>b i. real_of_int (i - 15), written = []\<rparr> (fst (0::nat, 0::int))"
    by blast
  from this [THEN bspec, OF t]
  have "mem (kernel_filter_divide_shadow \<lparr>pass_stride = 1, pass_denoising = 0\<rparr> 4
       (\<lambda>tile. (0, 0)) 1 1 (\<lambda>i. 0) (\<lambda>i. 0) (\<lambda>i. 0) (\<lambda>i. 0) (1, 0) (2, 0) (3, 0) (4, 0)
       \<lparr>int4_x = 0, int4_y = 0, int4_z = 4, int4_w = 4\<rparr>
       \<lparr>mem = \<lambda>b i. real_of_int (i - 15), written = []\<rparr>) 0
     = (\<lambda>i. real_of_int (i - 15))"
    by simp
  ultimately show ?thesis by blast
qed

text \<open>
  The claim as stated, exactly four written locations, fails: the call writes five distinct
  locations.
\<close>

theorem divide_shadow_five_writes:
  "distinct (map fst (written (kernel_filter_divide_shadow \<lparr>pass_stride = 1, pass_denoising = 0\<rparr> 4
       (\<lambda>tile. (0, 0)) 1 1 (\<lambda>i. 0) (\<lambda>i. 0) (\<lambda>i. 0) (\<lambda>i. 0) (1, 0) (2, 0) (3, 0) (4, 0)
       \<lparr>int4_x = 0, int4_y = 0, int4_z = 4, int4_w = 4\<rparr>
       \<lparr>mem = \<lambda>b i. 0, written = []\<rparr>))) \<and>
   length (written (kernel_filter_divide_shadow \<lparr>pass_stride = 1, pass_denoising = 0\<rparr> 4
       (\<lambda>tile. (0, 0)) 1 1 (\<lambda>i. 0) (\<lambda>i. 0) (\<lambda>i. 0) (\<lambda>i. 0) (1, 0) (2, 0) (3, 0) (4, 0)
       \<lparr>int4_x = 0, int4_y = 0, int4_z = 4, int4_w = 4\<rparr>
       \<lparr>mem = \<lambda>b i. 0, written = []\<rparr>)) = 5"
  by (simp add: divide_shadow_written kernel_filter_divide_shadow_def Let_def written_store
      ptr_add_def filter_idx_def shadow_Bofs_def filter_buffer_w_def align_up_def
      add32_def sub32_def mul32_def int32_def)

end
